theory Spec2Isabelle
  imports Complex_Main "HOL-Library.Word" "HOL-Library.Sublist"
begin

text \<open>
  A shallow embedding of the two value types of the SDK, the amount \<^verbatim>\<open>Hbar\<close> with its
  units and the transaction identifier, and of the exchange-rate mapper, with the
  properties of their construction, conversion, parsing, encoding and ordering.
  A call that throws returns \<open>Inl\<close> of the error, a call that returns \<open>Inr\<close> of the
  value.
\<close>

section \<open>Values of bignumber.js\<close>

text \<open>
  The class \<^verbatim>\<open>Hbar\<close> keeps its value in a \<^verbatim>\<open>BigNumber\<close> of the library
  bignumber.js, which the source uses with the library's default configuration
  (\<^verbatim>\<open>DECIMAL_PLACES = 20\<close>, \<^verbatim>\<open>ROUNDING_MODE = ROUND_HALF_UP\<close>). A \<^verbatim>\<open>BigNumber\<close> is
  \<^verbatim>\<open>NaN\<close>, an infinity or a finite decimal fraction of arbitrary precision; the finite
  ones are modelled as rationals. \<^verbatim>\<open>plus\<close>, \<^verbatim>\<open>minus\<close>, \<^verbatim>\<open>multipliedBy\<close> and
  \<^verbatim>\<open>negated\<close> are exact; \<^verbatim>\<open>dividedBy\<close> rounds its quotient to 20 decimal places,
  a tie going away from zero. The sign of a zero is not modelled: every zero is the
  positive zero.
\<close>

datatype BigNumber = NaN | PosInf | NegInf | Fin rat

definition DECIMAL_PLACES :: nat where
  "DECIMAL_PLACES = 20"

definition round_half_up :: "rat \<Rightarrow> int" where
  "round_half_up x = (if 0 \<le> x then \<lfloor>x + 1 / 2\<rfloor> else - \<lfloor>- x + 1 / 2\<rfloor>)"

definition round_dp :: "rat \<Rightarrow> rat" where
  "round_dp x = of_int (round_half_up (x * 10 ^ DECIMAL_PLACES)) / 10 ^ DECIMAL_PLACES"

fun bn_sgn :: "BigNumber \<Rightarrow> int" where
  "bn_sgn NaN = 0"
| "bn_sgn PosInf = 1"
| "bn_sgn NegInf = - 1"
| "bn_sgn (Fin x) = (if 0 \<le> x then 1 else - 1)"

fun bn_isZero :: "BigNumber \<Rightarrow> bool" where
  "bn_isZero (Fin x) = (x = 0)"
| "bn_isZero _ = False"

fun bn_isFinite :: "BigNumber \<Rightarrow> bool" where
  "bn_isFinite (Fin x) = True"
| "bn_isFinite _ = False"

definition bn_inf :: "int \<Rightarrow> BigNumber" where
  "bn_inf s = (if 0 < s then PosInf else NegInf)"

fun bn_negated :: "BigNumber \<Rightarrow> BigNumber" where
  "bn_negated NaN = NaN"
| "bn_negated PosInf = NegInf"
| "bn_negated NegInf = PosInf"
| "bn_negated (Fin x) = Fin (- x)"

fun bn_multipliedBy :: "BigNumber \<Rightarrow> BigNumber \<Rightarrow> BigNumber" where
  "bn_multipliedBy NaN b = NaN"
| "bn_multipliedBy a NaN = NaN"
| "bn_multipliedBy (Fin x) (Fin y) = Fin (x * y)"
| "bn_multipliedBy a b =
     (if bn_isZero a \<or> bn_isZero b then NaN else bn_inf (bn_sgn a * bn_sgn b))"

fun bn_dividedBy :: "BigNumber \<Rightarrow> BigNumber \<Rightarrow> BigNumber" where
  "bn_dividedBy NaN b = NaN"
| "bn_dividedBy a NaN = NaN"
| "bn_dividedBy (Fin x) (Fin y) =
     (if y = 0 then (if x = 0 then NaN else bn_inf (bn_sgn (Fin x)))
      else Fin (round_dp (x / y)))"
| "bn_dividedBy (Fin x) b = Fin 0"
| "bn_dividedBy a (Fin y) = bn_inf (bn_sgn a * bn_sgn (Fin y))"
| "bn_dividedBy a b = NaN"

fun bn_plus :: "BigNumber \<Rightarrow> BigNumber \<Rightarrow> BigNumber" where
  "bn_plus NaN b = NaN"
| "bn_plus a NaN = NaN"
| "bn_plus (Fin x) (Fin y) = Fin (x + y)"
| "bn_plus (Fin x) b = b"
| "bn_plus a (Fin y) = a"
| "bn_plus a b = (if a = b then a else NaN)"

definition bn_minus :: "BigNumber \<Rightarrow> BigNumber \<Rightarrow> BigNumber" where
  "bn_minus a b = bn_plus a (bn_negated b)"

text \<open>\<^verbatim>\<open>comparedTo\<close>: 1, -1 or 0, and \<^verbatim>\<open>null\<close> (here \<open>None\<close>) when either side is \<^verbatim>\<open>NaN\<close>.\<close>

fun bn_comparedTo :: "BigNumber \<Rightarrow> BigNumber \<Rightarrow> int option" where
  "bn_comparedTo NaN b = None"
| "bn_comparedTo a NaN = None"
| "bn_comparedTo (Fin x) (Fin y) = Some (if x < y then - 1 else if y < x then 1 else 0)"
| "bn_comparedTo PosInf b = Some (if b = PosInf then 0 else 1)"
| "bn_comparedTo NegInf b = Some (if b = NegInf then 0 else - 1)"
| "bn_comparedTo a PosInf = Some (- 1)"
| "bn_comparedTo a NegInf = Some 1"

definition bn_isGreaterThan :: "BigNumber \<Rightarrow> BigNumber \<Rightarrow> bool" where
  "bn_isGreaterThan a b = (bn_comparedTo a b = Some 1)"

definition bn_isLessThan :: "BigNumber \<Rightarrow> BigNumber \<Rightarrow> bool" where
  "bn_isLessThan a b = (bn_comparedTo a b = Some (- 1))"

definition bn_isEqualTo :: "BigNumber \<Rightarrow> BigNumber \<Rightarrow> bool" where
  "bn_isEqualTo a b = (bn_comparedTo a b = Some 0)"

fun bn_isNegative :: "BigNumber \<Rightarrow> bool" where
  "bn_isNegative NaN = False"
| "bn_isNegative a = (bn_sgn a < 0)"

fun bn_isPositive :: "BigNumber \<Rightarrow> bool" where
  "bn_isPositive NaN = False"
| "bn_isPositive a = (0 < bn_sgn a)"

text \<open>\<^verbatim>\<open>isInteger\<close> of bignumber.js: a finite value with no fractional part.\<close>

fun bn_isInteger :: "BigNumber \<Rightarrow> bool" where
  "bn_isInteger (Fin x) = (x = of_int \<lfloor>x\<rfloor>)"
| "bn_isInteger _ = False"

text \<open>
  An argument of type \<^verbatim>\<open>number | BigNumber | string\<close>. The source reads such an argument
  through \<^verbatim>\<open>typeof\<close>, \<^verbatim>\<open>instanceof BigNumber\<close>, \<^verbatim>\<open>new BigNumber(amount)\<close> and, for a
  number, \<^verbatim>\<open>amount >= 2 ** 53\<close>; so an argument is modelled as the tag of its JavaScript
  type with the value \<^verbatim>\<open>new BigNumber(amount)\<close> denotes. For a number that is the value
  of its shortest decimal numeral, which lies on the same side of \<open>2 ^ 53\<close> as the
  number itself, \<open>2 ^ 53\<close> being a double.
\<close>

datatype js_amount = JsNumber BigNumber | JsBigNumber BigNumber | JsString BigNumber

fun new_BigNumber :: "js_amount \<Rightarrow> BigNumber" where
  "new_BigNumber (JsNumber b) = b"
| "new_BigNumber (JsBigNumber b) = b"
| "new_BigNumber (JsString b) = b"

fun is_number :: "js_amount \<Rightarrow> bool" where
  "is_number (JsNumber b) = True"
| "is_number _ = False"

text \<open>The comparison \<^verbatim>\<open>amount >= 2 ** 53\<close> on a number; false on \<^verbatim>\<open>NaN\<close>.\<close>

fun number_ge :: "BigNumber \<Rightarrow> rat \<Rightarrow> bool" where
  "number_ge NaN k = False"
| "number_ge PosInf k = True"
| "number_ge NegInf k = False"
| "number_ge (Fin x) k = (k \<le> x)"

section \<open>HbarUnit\<close>

datatype HbarUnit = Tinybar | Microbar | Millibar | Hbar | Kilobar | Megabar | Gigabar

fun toTinybarCount :: "HbarUnit \<Rightarrow> BigNumber" where
  "toTinybarCount Tinybar = Fin 1"
| "toTinybarCount Microbar = Fin 100"
| "toTinybarCount Millibar = Fin 100000"
| "toTinybarCount Hbar = Fin 100000000"
| "toTinybarCount Kilobar = bn_multipliedBy (Fin 100000000) (Fin 1000)"
| "toTinybarCount Megabar = bn_multipliedBy (Fin 100000000) (Fin 1000000)"
| "toTinybarCount Gigabar = bn_multipliedBy (Fin 100000000) (Fin 1000000000)"

fun unit_toString :: "HbarUnit \<Rightarrow> string" where
  "unit_toString Tinybar = ''tinybar''"
| "unit_toString Microbar = ''microbar''"
| "unit_toString Millibar = ''millibar''"
| "unit_toString Hbar = ''hbar''"
| "unit_toString Kilobar = ''kilobar''"
| "unit_toString Megabar = ''megabar''"
| "unit_toString Gigabar = ''gigabar''"

definition convertToTinybar :: "js_amount \<Rightarrow> HbarUnit \<Rightarrow> BigNumber" where
  "convertToTinybar amount u = bn_multipliedBy (new_BigNumber amount) (toTinybarCount u)"

definition maxTinybar :: BigNumber where
  "maxTinybar = bn_minus (Fin (2 ^ 63)) (Fin 1)"

definition maxHbar :: BigNumber where
  "maxHbar = bn_dividedBy maxTinybar (toTinybarCount Hbar)"

definition minTinybar :: BigNumber where
  "minTinybar = Fin ((- 2) ^ 63)"

definition minHbar :: BigNumber where
  "minHbar = bn_dividedBy minTinybar (toTinybarCount Hbar)"

section \<open>Hbar\<close>

record Hbar =
  tinybar :: BigNumber
  hunit :: HbarUnit

datatype hbar_error = HbarRangeError Hbar

text \<open>\<^verbatim>\<open>_check(allowNegative)\<close>: \<open>Inl\<close> is the error thrown, \<open>Inr ()\<close> a normal return.\<close>

definition Hbar_check :: "Hbar \<Rightarrow> bool \<Rightarrow> hbar_error + unit" where
  "Hbar_check this allowNegative =
     (if bn_isNegative (tinybar this) \<and> \<not> allowNegative \<and> bn_isLessThan (tinybar this) maxTinybar
      then Inl (HbarRangeError this)
      else if bn_isGreaterThan (tinybar this) maxTinybar
      then Inl (HbarRangeError this)
      else Inr ())"

text \<open>The constructor \<^verbatim>\<open>new Hbar(amount)\<close>.\<close>

definition new_Hbar :: "js_amount \<Rightarrow> hbar_error + Hbar" where
  "new_Hbar amount =
     (let bnAmount = new_BigNumber amount;
          this = \<lparr>tinybar = bn_multipliedBy bnAmount (toTinybarCount Hbar), hunit = Hbar\<rparr>
      in case Hbar_check this True of Inl e \<Rightarrow> Inl e | Inr u \<Rightarrow> Inr this)"

text \<open>The static fields \<^verbatim>\<open>Hbar.MAX\<close> and \<^verbatim>\<open>Hbar.MIN\<close>.\<close>

definition Hbar_MAX :: "hbar_error + Hbar" where
  "Hbar_MAX = new_Hbar (JsBigNumber maxHbar)"

definition Hbar_MIN :: "hbar_error + Hbar" where
  "Hbar_MIN = new_Hbar (JsBigNumber minHbar)"

definition Hbar_from :: "js_amount \<Rightarrow> HbarUnit \<Rightarrow> hbar_error + Hbar" where
  "Hbar_from amount u =
     (let bnAmount = new_BigNumber amount;
          tinybar = bn_multipliedBy bnAmount (toTinybarCount u);
          hbar = bn_dividedBy tinybar (toTinybarCount Hbar)
      in new_Hbar (JsBigNumber hbar))"

text \<open>
  \<^verbatim>\<open>fromTinybar\<close>. In the guarded branch the operand of \<^verbatim>\<open>throw\<close> is evaluated first:
  \<^verbatim>\<open>new Hbar(amount)\<close> runs the constructor, and an error of the constructor is the one
  that leaves the function.
\<close>

definition Hbar_fromTinybar :: "js_amount \<Rightarrow> hbar_error + Hbar" where
  "Hbar_fromTinybar amount =
     (if is_number amount \<and> number_ge (new_BigNumber amount) (2 ^ 53)
      then (case new_Hbar amount of Inl e \<Rightarrow> Inl e | Inr h \<Rightarrow> Inl (HbarRangeError h))
      else let bnAmount = new_BigNumber amount
           in new_Hbar (JsBigNumber (bn_dividedBy bnAmount (toTinybarCount Hbar))))"

definition Hbar_zero :: "hbar_error + Hbar" where
  "Hbar_zero = new_Hbar (JsBigNumber (Fin 0))"

definition Hbar_as :: "Hbar \<Rightarrow> HbarUnit \<Rightarrow> BigNumber" where
  "Hbar_as this u =
     (if unit_toString u = ''tinybar'' then tinybar this
      else bn_dividedBy (tinybar this) (toTinybarCount u))"

definition Hbar_value :: "Hbar \<Rightarrow> BigNumber" where
  "Hbar_value this = Hbar_as this Hbar"

definition Hbar_asTinybar :: "Hbar \<Rightarrow> BigNumber" where
  "Hbar_asTinybar this = Hbar_as this Tinybar"

definition Hbar_multipliedBy :: "Hbar \<Rightarrow> js_amount \<Rightarrow> hbar_error + Hbar" where
  "Hbar_multipliedBy this amount =
     new_Hbar (JsBigNumber (bn_multipliedBy (tinybar this) (new_BigNumber amount)))"

text \<open>The two overloads of \<^verbatim>\<open>plus\<close> and \<^verbatim>\<open>minus\<close>: another Hbar, or a raw amount with its unit.\<close>

datatype hbar_operand = AnHbar Hbar | AnAmount js_amount HbarUnit

fun operand_tinybar :: "hbar_operand \<Rightarrow> BigNumber" where
  "operand_tinybar (AnHbar h) = tinybar h"
| "operand_tinybar (AnAmount amount u) = convertToTinybar amount u"

definition Hbar_plus :: "Hbar \<Rightarrow> hbar_operand \<Rightarrow> hbar_error + Hbar" where
  "Hbar_plus this amount =
     new_Hbar (JsBigNumber (bn_dividedBy (bn_plus (tinybar this) (operand_tinybar amount))
                                         (toTinybarCount Hbar)))"

definition Hbar_minus :: "Hbar \<Rightarrow> hbar_operand \<Rightarrow> hbar_error + Hbar" where
  "Hbar_minus this amount =
     new_Hbar (JsBigNumber (bn_dividedBy (bn_minus (tinybar this) (operand_tinybar amount))
                                         (toTinybarCount Hbar)))"

definition Hbar_negated :: "Hbar \<Rightarrow> hbar_error + Hbar" where
  "Hbar_negated this =
     new_Hbar (JsBigNumber (bn_dividedBy (bn_negated (tinybar this)) (toTinybarCount Hbar)))"

definition Hbar_isZero :: "Hbar \<Rightarrow> bool" where
  "Hbar_isZero this = bn_isZero (tinybar this)"

definition Hbar_isNegative :: "Hbar \<Rightarrow> bool" where
  "Hbar_isNegative this = bn_isNegative (tinybar this)"

definition Hbar_isPositive :: "Hbar \<Rightarrow> bool" where
  "Hbar_isPositive this = bn_isPositive (tinybar this)"

section \<open>Errors of the JavaScript runtime\<close>

text \<open>
  \<^verbatim>\<open>TypeError\<close> is what reading a property of \<^verbatim>\<open>undefined\<close> or \<^verbatim>\<open>null\<close>, or assigning to a
  property of a frozen object in strict code, throws; \<^verbatim>\<open>Error\<close> carries the message of a
  \<^verbatim>\<open>throw new Error(...)\<close>.
\<close>

datatype js_error = TypeError | Error string

section \<open>ExchangeRate\<close>

text \<open>
  \<^verbatim>\<open>new Date(value)\<close> on a number: a time value beyond 8.64e15 milliseconds either way is
  the invalid date.
\<close>

datatype Date = Date int | InvalidDate

definition new_Date :: "int \<Rightarrow> Date" where
  "new_Date ms = (if \<bar>ms\<bar> \<le> 8640000000000000 then Date ms else InvalidDate)"

text \<open>
  The generated protobuf messages, as the getters the source calls read them; a message
  field that is not set reads as \<^verbatim>\<open>undefined\<close>, here \<open>None\<close>.
\<close>

record ProtoTimestampSeconds =
  getSeconds :: int

record ProtoExchangeRate =
  getHbarequiv :: int
  getCentequiv :: int
  getExpirationtime :: "ProtoTimestampSeconds option"

record ProtoExchangeRateSet =
  getCurrentrate :: "ProtoExchangeRate option"
  getNextrate :: "ProtoExchangeRate option"

record ExchangeRate =
  hbarEquiv :: int
  centEquiv :: int
  expirationTime :: Date

record ExchangeRateSet =
  currentRate :: ExchangeRate
  nextRate :: ExchangeRate

text \<open>
  The non-null assertions \<^verbatim>\<open>!\<close> of the source are erased at run time: a missing message
  makes the getter call on it throw.
\<close>

definition exchangeRateToSdk :: "ProtoExchangeRate option \<Rightarrow> js_error + ExchangeRate" where
  "exchangeRateToSdk exchangeRate =
     (case exchangeRate of
        None \<Rightarrow> Inl TypeError
      | Some r \<Rightarrow>
          (case getExpirationtime r of
             None \<Rightarrow> Inl TypeError
           | Some t \<Rightarrow> Inr \<lparr>hbarEquiv = getHbarequiv r, centEquiv = getCentequiv r,
                             expirationTime = new_Date (getSeconds t)\<rparr>))"

definition exchangeRateSetToSdk :: "ProtoExchangeRateSet \<Rightarrow> js_error + ExchangeRateSet" where
  "exchangeRateSetToSdk exchangeRateSet =
     (case exchangeRateToSdk (getCurrentrate exchangeRateSet) of
        Inl e \<Rightarrow> Inl e
      | Inr c \<Rightarrow>
          (case exchangeRateToSdk (getCurrentrate exchangeRateSet) of
             Inl e \<Rightarrow> Inl e
           | Inr n \<Rightarrow> Inr \<lparr>currentRate = c, nextRate = n\<rparr>))"

section \<open>JavaScript strings\<close>

text \<open>
  \<open>find_sub sep s\<close> cuts \<open>s\<close> at the first occurrence of \<open>sep\<close>: the text before it and
  the text after it. \<^verbatim>\<open>includes\<close>, \<^verbatim>\<open>replace\<close> (with a string pattern: the first occurrence
  only) and \<^verbatim>\<open>split\<close> of \<^verbatim>\<open>String.prototype\<close> are read off it.
\<close>

fun find_sub :: "string \<Rightarrow> string \<Rightarrow> (string \<times> string) option" where
  "find_sub sep [] = (if sep = [] then Some ([], []) else None)"
| "find_sub sep (c # cs) =
     (if prefix sep (c # cs) then Some ([], drop (length sep) (c # cs))
      else map_option (\<lambda>(b, a). (c # b, a)) (find_sub sep cs))"

definition js_includes :: "string \<Rightarrow> string \<Rightarrow> bool" where
  "js_includes s pat = (find_sub pat s \<noteq> None)"

definition js_replace :: "string \<Rightarrow> string \<Rightarrow> string \<Rightarrow> string" where
  "js_replace s pat rep = (case find_sub pat s of None \<Rightarrow> s | Some (b, a) \<Rightarrow> b @ rep @ a)"

lemma find_sub_length:
  "find_sub sep s = Some (b, a) \<Longrightarrow> sep \<noteq> [] \<Longrightarrow> length a < length s"
  by (induction s arbitrary: b) (auto split: if_splits)

function js_split :: "string \<Rightarrow> string \<Rightarrow> string list" where
  "js_split s sep =
     (if sep = [] then map (\<lambda>c. [c]) s
      else case find_sub sep s of None \<Rightarrow> [s] | Some (b, a) \<Rightarrow> b # js_split a sep)"
  by pat_completeness auto
termination
  by (relation "measure (\<lambda>(s, sep). length s)") (auto dest: find_sub_length)

section \<open>Long\<close>

text \<open>
  A JavaScript number as the nonce of an identifier and \<^verbatim>\<open>Long.fromNumber\<close> read it:
  \<^verbatim>\<open>NaN\<close>, an infinity, or a finite double, which is a rational (a finite double is a
  dyadic rational; the functions below are defined on every rational).
\<close>

datatype js_number = JNaN | JPosInf | JNegInf | JNum rat

text \<open>
  A \<^verbatim>\<open>Long\<close> of the library long.js: 64 bits and the flag \<^verbatim>\<open>unsigned\<close>, which says how
  the bits are read. \<^verbatim>\<open>fromNumber\<close>, \<^verbatim>\<open>fromString\<close> and \<^verbatim>\<open>fromValue\<close>, called as the
  source calls them, make signed ones; a caller may hand over an unsigned one.
\<close>

type_synonym int64 = "64 word"

datatype Long = Long (Long_bits: int64) (Long_unsigned: bool)

text \<open>\<^verbatim>\<open>mul\<close>, \<^verbatim>\<open>add\<close> and \<^verbatim>\<open>neg\<close> wrap around and keep the receiver's flag.\<close>

definition Long_mul :: "Long \<Rightarrow> Long \<Rightarrow> Long" where
  "Long_mul a b = Long (Long_bits a * Long_bits b) (Long_unsigned a)"

definition Long_add :: "Long \<Rightarrow> Long \<Rightarrow> Long" where
  "Long_add a b = Long (Long_bits a + Long_bits b) (Long_unsigned a)"

definition Long_neg :: "Long \<Rightarrow> Long" where
  "Long_neg a = Long (- Long_bits a) (Long_unsigned a)"

text \<open>The integer part of a number: what \<^verbatim>\<open>| 0\<close> keeps of it.\<close>

definition js_trunc :: "rat \<Rightarrow> int" where
  "js_trunc x = (if 0 \<le> x then \<lfloor>x\<rfloor> else - \<lfloor>- x\<rfloor>)"

text \<open>
  \<^verbatim>\<open>Long.fromNumber(value)\<close>, signed: \<^verbatim>\<open>NaN\<close> gives zero, a value out of range
  \<^verbatim>\<open>MIN_VALUE\<close> or \<^verbatim>\<open>MAX_VALUE\<close>, a negative value the negation of what its opposite
  gives, and any other value the \<^verbatim>\<open>Long\<close> of its two 32-bit halves
  \<^verbatim>\<open>(value % 2^32) | 0\<close> and \<^verbatim>\<open>(value / 2^32) | 0\<close>, which drop its fractional part.
\<close>

fun Long_fromNumber :: "js_number \<Rightarrow> Long" where
  "Long_fromNumber JNaN = Long 0 False"
| "Long_fromNumber JPosInf = Long (word_of_int (2 ^ 63 - 1)) False"
| "Long_fromNumber JNegInf = Long (word_of_int (- (2 ^ 63))) False"
| "Long_fromNumber (JNum v) =
     (if v \<le> - (2 ^ 63) then Long (word_of_int (- (2 ^ 63))) False
      else if 2 ^ 63 \<le> v + 1 then Long (word_of_int (2 ^ 63 - 1)) False
      else if v < 0 then Long_neg (Long (word_of_int (js_trunc (- v))) False)
      else Long (word_of_int (js_trunc v)) False)"

text \<open>
  \<^verbatim>\<open>toInt\<close>: the low 32 bits, read as an unsigned 32-bit integer when the \<^verbatim>\<open>Long\<close> is
  unsigned and as a signed one otherwise.
\<close>

definition toInt :: "Long \<Rightarrow> int" where
  "toInt l =
     (if Long_unsigned l then uint (ucast (Long_bits l) :: 32 word)
      else sint (ucast (Long_bits l) :: 32 word))"

text \<open>\<^verbatim>\<open>compare\<close> on two signed \<^verbatim>\<open>Long\<close>s, given by their bits.\<close>

definition Long_compare :: "int64 \<Rightarrow> int64 \<Rightarrow> int" where
  "Long_compare a b = (if a = b then 0 else if sint a < sint b then - 1 else 1)"

definition digit_char :: "nat \<Rightarrow> char" where
  "digit_char d = ''0123456789'' ! d"

function digits :: "nat \<Rightarrow> string" where
  "digits n = (if n < 10 then [digit_char n] else digits (n div 10) @ [digit_char (n mod 10)])"
  by pat_completeness auto
termination
  by (relation "measure id") auto

text \<open>
  \<^verbatim>\<open>toString()\<close>: the decimal numeral of the bits, read as the flag says. An unsigned
  \<^verbatim>\<open>Long\<close> is never negative.
\<close>

definition Long_toString :: "Long \<Rightarrow> string" where
  "Long_toString l =
     (if Long_unsigned l then digits (unat (Long_bits l))
      else if sint (Long_bits l) < 0 then CHR ''-'' # digits (nat (- sint (Long_bits l)))
      else digits (nat (sint (Long_bits l))))"

definition is_digit :: "char \<Rightarrow> bool" where
  "is_digit c = (c \<in> set ''0123456789'')"

definition digit_val :: "char \<Rightarrow> int" where
  "digit_val c = int (length (takeWhile (\<lambda>d. d \<noteq> c) ''0123456789''))"

definition is_whitespace :: "char \<Rightarrow> bool" where
  "is_whitespace c = (c \<in> set [CHR 0x09, CHR 0x0A, CHR 0x0B, CHR 0x0C, CHR 0x0D, CHR 0x20, CHR 0xA0])"

text \<open>
  \<^verbatim>\<open>parseInt(str, 10)\<close>: leading white space is skipped, a sign is read, and the longest
  run of decimal digits that follows is the value; with no digit there the result is
  \<^verbatim>\<open>NaN\<close>.
\<close>

definition parseInt :: "string \<Rightarrow> int option" where
  "parseInt str =
     (let s = dropWhile is_whitespace str;
          neg = (s \<noteq> [] \<and> hd s = CHR ''-'');
          s' = (if s \<noteq> [] \<and> (hd s = CHR ''-'' \<or> hd s = CHR ''+'') then tl s else s);
          z = takeWhile is_digit s'
      in if z = [] then None
         else let v = foldl (\<lambda>a c. 10 * a + digit_val c) 0 z
              in Some (if neg then - v else v))"

text \<open>
  The loop of \<^verbatim>\<open>Long.fromString\<close>: the string is read in chunks of eight characters,
  \<^verbatim>\<open>result = result.mul(fromNumber(10 ^ size)).add(fromNumber(parseInt(chunk, 10)))\<close>.
\<close>

function parse_chunks :: "Long \<Rightarrow> string \<Rightarrow> Long" where
  "parse_chunks result str =
     (if str = [] then result
      else let chunk = take 8 str;
               power = Long_fromNumber (JNum (10 ^ length chunk));
               v = Long_fromNumber (case parseInt chunk of None \<Rightarrow> JNaN | Some n \<Rightarrow> JNum (of_int n))
           in parse_chunks (Long_add (Long_mul result power) v) (drop 8 str))"
  by pat_completeness auto
termination
  by (relation "measure (\<lambda>(result, str). length str)") auto

text \<open>
  \<^verbatim>\<open>Long.fromString(str)\<close>, which is also \<^verbatim>\<open>Long.fromValue\<close> on a string, both without
  the argument \<^verbatim>\<open>unsigned\<close>: the result is signed. An empty string and a hyphen past the
  first character throw, a leading hyphen negates what follows.
\<close>

fun Long_fromString :: "string \<Rightarrow> js_error + Long" where
  "Long_fromString [] = Inl (Error ''empty string'')"
| "Long_fromString (c # cs) =
     (if c # cs \<in> set [''NaN'', ''Infinity'', ''+Infinity'', ''-Infinity''] then Inr (Long 0 False)
      else if c = CHR ''-'' then
        (case Long_fromString cs of Inl e \<Rightarrow> Inl e | Inr l \<Rightarrow> Inr (Long_neg l))
      else if CHR ''-'' \<in> set cs then Inl (Error ''interior hyphen'')
      else Inr (parse_chunks (Long 0 False) (c # cs)))"

section \<open>Timestamp\<close>

text \<open>
  Modelled from the spec: the class \<^verbatim>\<open>Timestamp\<close>, which is not among the source files.
  The spec gives a timestamp as integer seconds and integer nanoseconds; they are held
  as signed 64-bit integers, which the source reads as \<^verbatim>\<open>validStart.seconds\<close> and
  \<^verbatim>\<open>validStart.nanos\<close> and prints as signed \<^verbatim>\<open>Long\<close>s.
\<close>

record Timestamp =
  seconds :: int64
  nanos :: int64

text \<open>
  Modelled from the spec: the constructor \<^verbatim>\<open>new Timestamp(seconds, nanos)\<close>, on two
  \<^verbatim>\<open>Long\<close>s as \<^verbatim>\<open>fromString\<close> calls it.
\<close>

definition new_Timestamp :: "Long \<Rightarrow> Long \<Rightarrow> Timestamp" where
  "new_Timestamp s n = \<lparr>seconds = Long_bits s, nanos = Long_bits n\<rparr>"

text \<open>
  Modelled from the spec: \<^verbatim>\<open>Timestamp.compare\<close>, which the spec gives as the order by
  seconds, then nanoseconds.
\<close>

definition Timestamp_compare :: "Timestamp \<Rightarrow> Timestamp \<Rightarrow> int" where
  "Timestamp_compare this other =
     (let comparison = Long_compare (seconds this) (seconds other)
      in if comparison \<noteq> 0 then comparison else Long_compare (nanos this) (nanos other))"

section \<open>TransactionId\<close>

text \<open>
  The transaction identifier: the methods of the class in \<^verbatim>\<open>src/ExchangeRate.ts\<close>, lines
  40 to 247, which build their results with \<^verbatim>\<open>new TransactionId(accountId, validStart,
  scheduled, nonce)\<close> and read the fields \<^verbatim>\<open>accountId\<close>, \<^verbatim>\<open>validStart\<close>, \<^verbatim>\<open>scheduled\<close> and
  \<^verbatim>\<open>nonce\<close>. The account reference is a type parameter; \<^verbatim>\<open>AccountId.fromString\<close>,
  \<^verbatim>\<open>toString\<close>, \<^verbatim>\<open>compare\<close>, \<^verbatim>\<open>_toProtobuf\<close> and \<^verbatim>\<open>_fromProtobuf\<close>, and the protobuf
  conversions and the comparator of \<^verbatim>\<open>Timestamp\<close>, are parameters of the functions that
  call them. \<open>frozen\<close> records \<^verbatim>\<open>Object.freeze(this)\<close>: the class is strict code, where an
  assignment to a property of a frozen object throws a \<^verbatim>\<open>TypeError\<close>.
\<close>

record 'a TransactionId =
  accountId :: "'a option"
  validStart :: "Timestamp option"
  scheduled :: bool
  nonce :: "Long option"
  frozen :: bool

text \<open>An argument of type \<^verbatim>\<open>Long | number\<close>.\<close>

datatype long_or_number = ALong Long | ANumber js_number

text \<open>
  \<^verbatim>\<open>nonce != 0\<close> is false exactly on the number zero and on a \<^verbatim>\<open>Long\<close> whose numeral is
  \<^verbatim>\<open>"0"\<close>, the loose comparison going through \<^verbatim>\<open>toString\<close>; it is true on \<^verbatim>\<open>NaN\<close> and
  on a fraction such as 0.5.
\<close>

fun nonce_is_zero :: "long_or_number \<Rightarrow> bool" where
  "nonce_is_zero (ALong l) = (Long_toString l = ''0'')"
| "nonce_is_zero (ANumber n) = (n = JNum 0)"

definition setNonce :: "'a TransactionId \<Rightarrow> long_or_number \<Rightarrow> js_error + 'a TransactionId" where
  "setNonce this n =
     (if frozen this then Inl TypeError
      else Inr (this\<lparr>nonce := Some (case n of ANumber k \<Rightarrow> Long_fromNumber k | ALong l \<Rightarrow> l)\<rparr>))"

definition setScheduled :: "'a TransactionId \<Rightarrow> bool \<Rightarrow> js_error + 'a TransactionId" where
  "setScheduled this s =
     (if frozen this then Inl TypeError else Inr (this\<lparr>scheduled := s\<rparr>))"

text \<open>
  Modelled from the spec: the constructor \<^verbatim>\<open>new TransactionId(accountId, validStart,
  scheduled, nonce)\<close>, whose class declaration is not among the source files. It stores
  the owner, the valid start and the scheduled flag (false when none is given), as the
  spec's data model has them; the nonce is set and the object frozen as lines 67 to 72 of
  the constructor in the source do: \<^verbatim>\<open>this.nonce = null; if (nonce != null && nonce != 0)
  this.setNonce(nonce); Object.freeze(this)\<close>.
\<close>

definition new_TransactionId ::
  "'a option \<Rightarrow> Timestamp option \<Rightarrow> bool option \<Rightarrow> long_or_number option \<Rightarrow> js_error + 'a TransactionId" where
  "new_TransactionId a v s n =
     (let this = \<lparr>accountId = a, validStart = v,
                  scheduled = (case s of None \<Rightarrow> False | Some b \<Rightarrow> b),
                  nonce = None, frozen = False\<rparr>;
          r = (case n of
                 None \<Rightarrow> Inr this
               | Some k \<Rightarrow> if \<not> nonce_is_zero k then setNonce this k else Inr this)
      in case r of Inl e \<Rightarrow> Inl e | Inr this' \<Rightarrow> Inr (this'\<lparr>frozen := True\<rparr>))"

definition withValidStart :: "'a \<Rightarrow> Timestamp \<Rightarrow> js_error + 'a TransactionId" where
  "withValidStart a v = new_TransactionId (Some a) (Some v) None None"

definition toString :: "('a \<Rightarrow> string) \<Rightarrow> 'a TransactionId \<Rightarrow> js_error + string" where
  "toString acc_toString this =
     (case (accountId this, validStart this) of
        (Some a, Some v) \<Rightarrow>
          (let nonce_s = (case nonce this of Some n \<Rightarrow> ''/'' @ Long_toString n | None \<Rightarrow> '''');
               scheduled_s = (if scheduled this then ''?scheduled'' else '''')
           in Inr (acc_toString a @ ''@'' @ Long_toString (Long (seconds v) False) @ ''.''
                   @ Long_toString (Long (nanos v) False) @ scheduled_s @ nonce_s))
      | _ \<Rightarrow> Inl (Error ''neither `accountId` nor `validStart` are set''))"

text \<open>
  The \<^verbatim>\<open>return new TransactionId(...)\<close> that ends \<^verbatim>\<open>fromString\<close>; its arguments are
  evaluated from left to right, the first that throws ending the call.
\<close>

definition fromString_construct ::
  "(string \<Rightarrow> js_error + 'a) \<Rightarrow> string \<Rightarrow> string \<Rightarrow> string \<Rightarrow> bool option \<Rightarrow> string option
     \<Rightarrow> js_error + 'a TransactionId" where
  "fromString_construct acc_fromString account seconds_s nanos_s isScheduled nonce_s =
     (case acc_fromString account of Inl e \<Rightarrow> Inl e | Inr a \<Rightarrow>
      case Long_fromString seconds_s of Inl e \<Rightarrow> Inl e | Inr s \<Rightarrow>
      case Long_fromString nanos_s of Inl e \<Rightarrow> Inl e | Inr n \<Rightarrow>
      case nonce_s of
        None \<Rightarrow> new_TransactionId (Some a) (Some (new_Timestamp s n)) isScheduled None
      | Some z \<Rightarrow>
          (case Long_fromString z of Inl e \<Rightarrow> Inl e | Inr l \<Rightarrow>
             new_TransactionId (Some a) (Some (new_Timestamp s n)) isScheduled (Some (ALong l))))"

text \<open>
  \<^verbatim>\<open>fromString\<close>. A destructuring \<^verbatim>\<open>[x, rest] = s.split(sep)\<close> takes the first two pieces;
  when there is one piece only, \<^verbatim>\<open>rest\<close> is \<^verbatim>\<open>undefined\<close> and the next call on it throws a
  \<^verbatim>\<open>TypeError\<close>.
\<close>

definition fromString :: "(string \<Rightarrow> js_error + 'a) \<Rightarrow> string \<Rightarrow> js_error + 'a TransactionId" where
  "fromString acc_fromString wholeId =
     (case js_split wholeId ''@'' of
        account # rest # _ \<Rightarrow>
          (case js_split rest ''.'' of
             seconds_s # rest' # _ \<Rightarrow>
               if js_includes rest' ''?'' then
                 (case js_split rest' ''?scheduled'' of
                    nanos_s # rest'' # _ \<Rightarrow>
                      fromString_construct acc_fromString account seconds_s nanos_s (Some True)
                        (if js_includes rest'' ''/'' then Some (js_replace rest'' ''/'' '''') else None)
                  | _ \<Rightarrow> Inl TypeError)
               else if js_includes rest' ''/'' then
                 (case js_split rest' ''/'' of
                    nanos_s # nonce_s # _ \<Rightarrow>
                      fromString_construct acc_fromString account seconds_s nanos_s (Some False) (Some nonce_s)
                  | _ \<Rightarrow> Inl TypeError)
               else fromString_construct acc_fromString account seconds_s rest' None None
           | _ \<Rightarrow> Inl TypeError)
      | _ \<Rightarrow> Inl TypeError)"

text \<open>The object \<^verbatim>\<open>proto.ITransactionID\<close> that \<^verbatim>\<open>_toProtobuf\<close> makes and \<^verbatim>\<open>_fromProtobuf\<close> reads.\<close>

record ('p, 'q) ITransactionID =
  accountID :: "'p option"
  transactionValidStart :: "'q option"
  proto_scheduled :: "bool option"
  proto_nonce :: "js_number option"

definition toProtobuf ::
  "('a \<Rightarrow> 'p) \<Rightarrow> (Timestamp \<Rightarrow> 'q) \<Rightarrow> 'a TransactionId \<Rightarrow> ('p, 'q) ITransactionID" where
  "toProtobuf acc_toProtobuf ts_toProtobuf this =
     \<lparr>accountID = map_option acc_toProtobuf (accountId this),
      transactionValidStart = map_option ts_toProtobuf (validStart this),
      proto_scheduled = Some (scheduled this),
      proto_nonce = map_option (\<lambda>l. JNum (of_int (toInt l))) (nonce this)\<rparr>"

definition fromProtobuf ::
  "('p \<Rightarrow> js_error + 'a) \<Rightarrow> ('q \<Rightarrow> js_error + Timestamp) \<Rightarrow> ('p, 'q) ITransactionID
     \<Rightarrow> js_error + 'a TransactionId" where
  "fromProtobuf acc_fromProtobuf ts_fromProtobuf id' =
     (case (accountID id', transactionValidStart id') of
        (Some p, Some q) \<Rightarrow>
          (case acc_fromProtobuf p of Inl e \<Rightarrow> Inl e | Inr a \<Rightarrow>
           case ts_fromProtobuf q of Inl e \<Rightarrow> Inl e | Inr v \<Rightarrow>
             new_TransactionId (Some a) (Some v) (proto_scheduled id')
               (map_option ANumber (proto_nonce id')))
      | _ \<Rightarrow> Inl (Error ''Neither `nonce` or `accountID` and `transactionValidStart` are set''))"

definition clone :: "'a TransactionId \<Rightarrow> js_error + 'a TransactionId" where
  "clone this =
     new_TransactionId (accountId this) (validStart this) (Some (scheduled this))
       (map_option ALong (nonce this))"

text \<open>
  \<^verbatim>\<open>compare\<close>; a call on a \<^verbatim>\<open>null\<close> account or valid start, or with one as the argument,
  throws.
\<close>

definition compare ::
  "('a \<Rightarrow> 'a \<Rightarrow> int) \<Rightarrow> (Timestamp \<Rightarrow> Timestamp \<Rightarrow> int)
     \<Rightarrow> 'a TransactionId \<Rightarrow> 'a TransactionId \<Rightarrow> js_error + int" where
  "compare acc_compare ts_compare this other =
     (case (accountId this, accountId other) of
        (Some a, Some b) \<Rightarrow>
          (let comparison = acc_compare a b
           in if comparison \<noteq> 0 then Inr comparison
              else (case (validStart this, validStart other) of
                      (Some t, Some u) \<Rightarrow> Inr (ts_compare t u)
                    | _ \<Rightarrow> Inl TypeError))
      | _ \<Rightarrow> Inl TypeError)"

section \<open>Auxiliary definitions\<close>

text \<open>
  Three notions the statements below need: the exponent of a unit's factor, every
  factor being a power of ten, the signed reading of a \<^verbatim>\<open>Long\<close>, and the value of a
  decimal numeral.
\<close>

fun unit_exponent :: "HbarUnit \<Rightarrow> nat" where
  "unit_exponent Tinybar = 0"
| "unit_exponent Microbar = 2"
| "unit_exponent Millibar = 5"
| "unit_exponent Hbar = 8"
| "unit_exponent Kilobar = 11"
| "unit_exponent Megabar = 14"
| "unit_exponent Gigabar = 17"

text \<open>The signed \<^verbatim>\<open>Long\<close> of the same bits.\<close>

definition as_signed :: "Long \<Rightarrow> Long" where
  "as_signed l = Long (Long_bits l) False"

definition dec :: "string \<Rightarrow> int" where
  "dec s = foldl (\<lambda>a c. 10 * a + digit_val c) 0 s"

text \<open>The recursive equations are unfolded by hand, where a proof needs them.\<close>

declare digits.simps [simp del]
declare parse_chunks.simps [simp del]
declare js_split.simps [simp del]

section \<open>Construction of amounts\<close>

lemma round_half_up_of_int: "round_half_up (of_int n) = n"
  unfolding round_half_up_def by (auto; linarith)

lemma toTinybarCount_eq: "toTinybarCount u = Fin (10 ^ unit_exponent u)"
  by (cases u) simp_all

lemma round_dp_exact: "x * 10 ^ DECIMAL_PLACES = of_int m \<Longrightarrow> round_dp x = x"
proof -
  assume a: "x * 10 ^ DECIMAL_PLACES = of_int m"
  have "x = of_int m / 10 ^ DECIMAL_PLACES"
    using a by (simp add: field_simps)
  then show ?thesis
    unfolding round_dp_def a round_half_up_of_int by simp
qed

lemma round_dp_int_div:
  assumes "k \<le> DECIMAL_PLACES"
  shows "round_dp (of_int n / 10 ^ k) = of_int n / 10 ^ k"
proof -
  have "(10::rat) ^ DECIMAL_PLACES = 10 ^ k * 10 ^ (DECIMAL_PLACES - k)"
    using assms by (simp flip: power_add)
  then have "of_int n / 10 ^ k * (10::rat) ^ DECIMAL_PLACES = of_int (n * 10 ^ (DECIMAL_PLACES - k))"
    by simp
  then show ?thesis by (rule round_dp_exact)
qed

lemma unit_exponent_le: "unit_exponent u \<le> DECIMAL_PLACES"
  by (cases u) (simp_all add: DECIMAL_PLACES_def)

lemma maxTinybar_eq: "maxTinybar = Fin (2 ^ 63 - 1)"
  by (simp add: maxTinybar_def bn_minus_def)

lemma new_Hbar_Fin:
  "new_BigNumber a = Fin x \<Longrightarrow>
   new_Hbar a =
     (if 2 ^ 63 - 1 < x * 10 ^ 8
      then Inl (HbarRangeError \<lparr>tinybar = Fin (x * 10 ^ 8), hunit = Hbar\<rparr>)
      else Inr \<lparr>tinybar = Fin (x * 10 ^ 8), hunit = Hbar\<rparr>)"
  by (simp add: new_Hbar_def Hbar_check_def maxTinybar_eq bn_isGreaterThan_def Let_def)

lemma new_Hbar_int_div:
  "new_Hbar (JsBigNumber (bn_dividedBy (Fin (of_int n)) (toTinybarCount Hbar))) =
     (if 2 ^ 63 - 1 < n
      then Inl (HbarRangeError \<lparr>tinybar = Fin (of_int n), hunit = Hbar\<rparr>)
      else Inr \<lparr>tinybar = Fin (of_int n), hunit = Hbar\<rparr>)"
proof -
  have r: "round_dp (of_int n / 10 ^ 8) = of_int n / 10 ^ 8"
    by (rule round_dp_int_div) (simp add: DECIMAL_PLACES_def)
  have d: "bn_dividedBy (Fin (of_int n)) (toTinybarCount Hbar) = Fin (of_int n / 10 ^ 8)"
    using r by simp
  have lt: "((2::rat) ^ 63 - 1 < of_int n) = (2 ^ 63 - 1 < n)"
  proof -
    have "((2::rat) ^ 63 - 1) = of_int (2 ^ 63 - 1)" by simp
    then show ?thesis by (simp only: of_int_less_iff)
  qed
  show ?thesis
    unfolding d by (subst new_Hbar_Fin [where x = "of_int n / 10 ^ 8"]) (simp_all add: lt)
qed

lemma fromTinybar_int:
  "new_BigNumber a = Fin (of_int n) \<Longrightarrow> \<not> (is_number a \<and> 2 ^ 53 \<le> n) \<Longrightarrow>
   Hbar_fromTinybar a =
     (if 2 ^ 63 - 1 < n
      then Inl (HbarRangeError \<lparr>tinybar = Fin (of_int n), hunit = Hbar\<rparr>)
      else Inr \<lparr>tinybar = Fin (of_int n), hunit = Hbar\<rparr>)"
proof -
  assume a: "new_BigNumber a = Fin (of_int n)" and g: "\<not> (is_number a \<and> 2 ^ 53 \<le> n)"
  have "((2::rat) ^ 53 \<le> of_int n) = (2 ^ 53 \<le> n)"
  proof -
    have "((2::rat) ^ 53) = of_int (2 ^ 53)" by simp
    then show ?thesis by (simp only: of_int_le_iff)
  qed
  with a g have ng: "\<not> (is_number a \<and> number_ge (new_BigNumber a) (2 ^ 53))" by simp
  have "Hbar_fromTinybar a =
      new_Hbar (JsBigNumber (bn_dividedBy (new_BigNumber a) (toTinybarCount Hbar)))"
    unfolding Hbar_fromTinybar_def Let_def using ng by (rule if_not_P)
  then show ?thesis
    unfolding a by (simp only: new_Hbar_int_div)
qed

text \<open>The least and the greatest amount the class names: \<open>- (2 ^ 63)\<close> and \<open>2 ^ 63 - 1\<close> tinybar.\<close>

lemma Hbar_MIN_MAX:
  "Hbar_MIN = Inr \<lparr>tinybar = Fin (- (2 ^ 63)), hunit = Hbar\<rparr>
   \<and> Hbar_MAX = Inr \<lparr>tinybar = Fin (2 ^ 63 - 1), hunit = Hbar\<rparr>"
proof -
  have "minTinybar = Fin (of_int (- (2 ^ 63)))" by (simp add: minTinybar_def)
  then have 1: "Hbar_MIN = Inr \<lparr>tinybar = Fin (- (2 ^ 63)), hunit = Hbar\<rparr>"
    unfolding Hbar_MIN_def minHbar_def using new_Hbar_int_div [of "- (2 ^ 63)"] by simp
  have "maxTinybar = Fin (of_int (2 ^ 63 - 1))" by (simp add: maxTinybar_eq)
  then have 2: "Hbar_MAX = Inr \<lparr>tinybar = Fin (2 ^ 63 - 1), hunit = Hbar\<rparr>"
    unfolding Hbar_MAX_def maxHbar_def using new_Hbar_int_div [of "2 ^ 63 - 1"] by simp
  show ?thesis using 1 2 by simp
qed

text \<open>
  Claim C1. \<^verbatim>\<open>fromTinybar\<close> at the two ends of the signed 64-bit range, the integer given
  exactly (as a string): \<open>2 ^ 63\<close> is refused with a range error, \<open>2 ^ 63 - 1\<close> and
  \<open>- (2 ^ 63)\<close> are accepted, and so is \<open>- (2 ^ 63) - 1\<close>, which the claim says is
  refused: \<^verbatim>\<open>_check\<close> compares with \<^verbatim>\<open>maxTinybar\<close> only and never with \<^verbatim>\<open>minTinybar\<close>.
\<close>
theorem fromTinybar_range_ends:
  "Hbar_fromTinybar (JsString (Fin (2 ^ 63))) =
     Inl (HbarRangeError \<lparr>tinybar = Fin (2 ^ 63), hunit = Hbar\<rparr>)
   \<and> Hbar_fromTinybar (JsString (Fin (2 ^ 63 - 1))) =
     Inr \<lparr>tinybar = Fin (2 ^ 63 - 1), hunit = Hbar\<rparr>
   \<and> Hbar_fromTinybar (JsString (Fin (- (2 ^ 63)))) =
     Inr \<lparr>tinybar = Fin (- (2 ^ 63)), hunit = Hbar\<rparr>
   \<and> Hbar_fromTinybar (JsString (Fin (- (2 ^ 63) - 1))) =
     Inr \<lparr>tinybar = Fin (- (2 ^ 63) - 1), hunit = Hbar\<rparr>"
  using fromTinybar_int [of "JsString (Fin (2 ^ 63))" "2 ^ 63"]
    fromTinybar_int [of "JsString (Fin (2 ^ 63 - 1))" "2 ^ 63 - 1"]
    fromTinybar_int [of "JsString (Fin (- (2 ^ 63)))" "- (2 ^ 63)"]
    fromTinybar_int [of "JsString (Fin (- (2 ^ 63) - 1))" "- (2 ^ 63) - 1"]
  by simp

lemma as_int:
  "tinybar h = Fin (of_int v) \<Longrightarrow> Hbar_as h D = Fin (of_int v / 10 ^ unit_exponent D)"
proof -
  assume t: "tinybar h = Fin (of_int v)"
  have d: "bn_dividedBy (Fin (of_int v)) (toTinybarCount D) = Fin (of_int v / 10 ^ unit_exponent D)"
    unfolding toTinybarCount_eq by (simp add: round_dp_int_div unit_exponent_le)
  show ?thesis
  proof (cases "unit_toString D = ''tinybar''")
    case True
    then have "D = Tinybar" by (cases D) simp_all
    then show ?thesis by (simp add: Hbar_as_def t)
  next
    case False
    then show ?thesis by (simp add: Hbar_as_def t d)
  qed
qed

lemma from_exact:
  assumes "bn_multipliedBy (new_BigNumber a) (toTinybarCount u) = Fin (of_int n)"
  shows "Hbar_from a u =
     (if 2 ^ 63 - 1 < n
      then Inl (HbarRangeError \<lparr>tinybar = Fin (of_int n), hunit = Hbar\<rparr>)
      else Inr \<lparr>tinybar = Fin (of_int n), hunit = Hbar\<rparr>)"
  unfolding Hbar_from_def Let_def assms by (rule new_Hbar_int_div)

text \<open>
  Claim C9. For every unit \<open>D\<close> and every integer \<open>v\<close> of the signed 64-bit range that
  reaches \<^verbatim>\<open>fromTinybar\<close> exactly (a \<^verbatim>\<open>BigNumber\<close>, a string, or a number below
  \<open>2 ^ 53\<close>, which the guard lets through), \<^verbatim>\<open>fromTinybar(v)\<close> succeeds, and
  \<^verbatim>\<open>Hbar.from(h.as(D), D)\<close> succeeds with exactly \<open>v\<close> tinybar: the quotient by a
  unit's factor has at most 17 decimal places and is not rounded.
\<close>
theorem fromTinybar_as_from_roundtrip:
  assumes "new_BigNumber a = Fin (of_int v)" and "\<not> (is_number a \<and> 2 ^ 53 \<le> v)"
    and "- (2 ^ 63) \<le> v" and "v \<le> 2 ^ 63 - 1"
  shows "\<exists>h h'. Hbar_fromTinybar a = Inr h
           \<and> Hbar_from (JsBigNumber (Hbar_as h D)) D = Inr h'
           \<and> tinybar h' = Fin (of_int v)"
proof -
  let ?h = "\<lparr>tinybar = Fin (of_int v), hunit = Hbar\<rparr>"
  have 1: "Hbar_fromTinybar a = Inr ?h"
    using fromTinybar_int [OF assms(1,2)] assms(4) by simp
  have 2: "Hbar_as ?h D = Fin (of_int v / 10 ^ unit_exponent D)"
    by (rule as_int) simp
  have 3: "bn_multipliedBy (new_BigNumber (JsBigNumber (Hbar_as ?h D))) (toTinybarCount D)
             = Fin (of_int v)"
    unfolding 2 toTinybarCount_eq by simp
  have 4: "Hbar_from (JsBigNumber (Hbar_as ?h D)) D = Inr ?h"
    using from_exact [OF 3] assms(4) by simp
  show ?thesis using 1 4 by simp
qed

text \<open>C9 at 123456789 tinybar and the largest unit.\<close>
theorem fromTinybar_as_from_roundtrip_witness:
  "\<exists>h h'. Hbar_fromTinybar (JsString (Fin 123456789)) = Inr h
           \<and> Hbar_from (JsBigNumber (Hbar_as h Gigabar)) Gigabar = Inr h'
           \<and> tinybar h' = Fin 123456789"
  using fromTinybar_as_from_roundtrip [of "JsString (Fin 123456789)" 123456789 Gigabar]
  by simp

text \<open>
  Claim C3. \<^verbatim>\<open>new Hbar(1).multipliedBy(2)\<close>: one hbar is \<open>10 ^ 8\<close> tinybar, and the
  product holds \<open>2 * 10 ^ 16\<close> tinybar, not \<open>2 * 10 ^ 8\<close>: \<^verbatim>\<open>multipliedBy\<close> hands the
  product of tinybar to the constructor, which multiplies by \<open>10 ^ 8\<close> again. \<^verbatim>\<open>plus\<close>,
  \<^verbatim>\<open>minus\<close> and \<^verbatim>\<open>negated\<close> divide by \<open>10 ^ 8\<close> first and are exact on the same amount.
\<close>
theorem multipliedBy_rescales:
  "new_Hbar (JsNumber (Fin 1)) = Inr \<lparr>tinybar = Fin 100000000, hunit = Hbar\<rparr>
   \<and> Hbar_multipliedBy \<lparr>tinybar = Fin 100000000, hunit = Hbar\<rparr> (JsNumber (Fin 2)) =
       Inr \<lparr>tinybar = Fin 20000000000000000, hunit = Hbar\<rparr>
   \<and> Hbar_plus \<lparr>tinybar = Fin 100000000, hunit = Hbar\<rparr>
         (AnHbar \<lparr>tinybar = Fin 100000000, hunit = Hbar\<rparr>) =
       Inr \<lparr>tinybar = Fin 200000000, hunit = Hbar\<rparr>
   \<and> Hbar_minus \<lparr>tinybar = Fin 100000000, hunit = Hbar\<rparr>
         (AnAmount (JsNumber (Fin 3)) Tinybar) =
       Inr \<lparr>tinybar = Fin 99999997, hunit = Hbar\<rparr>
   \<and> Hbar_negated \<lparr>tinybar = Fin 100000000, hunit = Hbar\<rparr> =
       Inr \<lparr>tinybar = Fin (- 100000000), hunit = Hbar\<rparr>"
proof -
  have m: "Hbar_multipliedBy \<lparr>tinybar = Fin 100000000, hunit = Hbar\<rparr> (JsNumber (Fin 2)) =
       Inr \<lparr>tinybar = Fin 20000000000000000, hunit = Hbar\<rparr>"
    unfolding Hbar_multipliedBy_def
    by (subst new_Hbar_Fin [where x = 200000000]) simp_all
  have c: "new_Hbar (JsNumber (Fin 1)) = Inr \<lparr>tinybar = Fin 100000000, hunit = Hbar\<rparr>"
    by (subst new_Hbar_Fin [where x = 1]) simp_all
  have p: "Hbar_plus \<lparr>tinybar = Fin 100000000, hunit = Hbar\<rparr>
         (AnHbar \<lparr>tinybar = Fin 100000000, hunit = Hbar\<rparr>) =
       Inr \<lparr>tinybar = Fin 200000000, hunit = Hbar\<rparr>"
    unfolding Hbar_plus_def using new_Hbar_int_div [of 200000000] by simp
  have s: "Hbar_minus \<lparr>tinybar = Fin 100000000, hunit = Hbar\<rparr>
         (AnAmount (JsNumber (Fin 3)) Tinybar) =
       Inr \<lparr>tinybar = Fin 99999997, hunit = Hbar\<rparr>"
    unfolding Hbar_minus_def using new_Hbar_int_div [of 99999997]
    by (simp add: bn_minus_def convertToTinybar_def)
  have n: "Hbar_negated \<lparr>tinybar = Fin 100000000, hunit = Hbar\<rparr> =
       Inr \<lparr>tinybar = Fin (- 100000000), hunit = Hbar\<rparr>"
    unfolding Hbar_negated_def using new_Hbar_int_div [of "- 100000000"] by simp
  show ?thesis using c m p s n by simp
qed

text \<open>
  Claim C8. \<^verbatim>\<open>fromTinybar\<close> refuses the number \<open>2 ^ 53\<close>, its guard being
  \<^verbatim>\<open>amount >= 2 ** 53\<close>; the guard reads the value and not the magnitude, so the number
  \<open>- (2 ^ 53)\<close> passes it and is stored, and so is the number \<open>- (2 ^ 63)\<close>, which
  \<^verbatim>\<open>new BigNumber\<close> reads through its shortest numeral, \<^verbatim>\<open>-9223372036854776000\<close>.
\<close>
theorem fromTinybar_negative_number_passes:
  "isl (Hbar_fromTinybar (JsNumber (Fin (2 ^ 53))))
   \<and> Hbar_fromTinybar (JsNumber (Fin (- (2 ^ 53)))) =
       Inr \<lparr>tinybar = Fin (- (2 ^ 53)), hunit = Hbar\<rparr>
   \<and> Hbar_fromTinybar (JsNumber (Fin (- 9223372036854776000))) =
       Inr \<lparr>tinybar = Fin (- 9223372036854776000), hunit = Hbar\<rparr>"
proof -
  have "isl (new_Hbar (JsNumber (Fin (2 ^ 53))))"
    by (subst new_Hbar_Fin [where x = "2 ^ 53"]) simp_all
  then have 1: "isl (Hbar_fromTinybar (JsNumber (Fin (2 ^ 53))))"
    by (simp add: Hbar_fromTinybar_def split: sum.splits)
  have 2: "Hbar_fromTinybar (JsNumber (Fin (- (2 ^ 53)))) =
       Inr \<lparr>tinybar = Fin (- (2 ^ 53)), hunit = Hbar\<rparr>"
    using fromTinybar_int [of "JsNumber (Fin (- (2 ^ 53)))" "- (2 ^ 53)"] by simp
  have 3: "Hbar_fromTinybar (JsNumber (Fin (- 9223372036854776000))) =
       Inr \<lparr>tinybar = Fin (- 9223372036854776000), hunit = Hbar\<rparr>"
    using fromTinybar_int [of "JsNumber (Fin (- 9223372036854776000))" "- 9223372036854776000"]
    by simp
  show ?thesis using 1 2 3 by simp
qed

lemma tenth_not_int: "\<not> bn_isInteger (Fin (1 / 10))"
proof -
  have "\<lfloor>(1::rat) / 10\<rfloor> = 0" by (rule floor_unique) simp_all
  then show ?thesis by simp
qed

text \<open>
  Against claim C5 as stated: \<^verbatim>\<open>new Hbar("0.000000001")\<close> stores a tenth of a tinybar,
  and \<^verbatim>\<open>Hbar.from("0.0000000000001", HbarUnit.Tinybar)\<close> stores zero, its quotient by
  \<open>10 ^ 8\<close> being rounded at the twentieth decimal place.
\<close>
theorem constructor_stores_fraction:
  "new_Hbar (JsString (Fin (1 / 10 ^ 9))) = Inr \<lparr>tinybar = Fin (1 / 10), hunit = Hbar\<rparr>
   \<and> \<not> bn_isInteger (Fin (1 / 10))
   \<and> Hbar_from (JsString (Fin (1 / 10 ^ 13))) Tinybar = Inr \<lparr>tinybar = Fin 0, hunit = Hbar\<rparr>"
proof -
  have 1: "new_Hbar (JsString (Fin (1 / 10 ^ 9))) = Inr \<lparr>tinybar = Fin (1 / 10), hunit = Hbar\<rparr>"
    by (subst new_Hbar_Fin [where x = "1 / 10 ^ 9"]) simp_all
  have "\<lfloor>(3::rat) / 5\<rfloor> = 0" by (rule floor_unique) simp_all
  then have "round_dp (1 / 10 ^ 21) = 0"
    by (simp add: round_dp_def round_half_up_def DECIMAL_PLACES_def)
  then have d: "bn_dividedBy (bn_multipliedBy (new_BigNumber (JsString (Fin (1 / 10 ^ 13))))
                                (toTinybarCount Tinybar)) (toTinybarCount Hbar) = Fin 0"
    by simp
  have 2: "Hbar_from (JsString (Fin (1 / 10 ^ 13))) Tinybar
             = Inr \<lparr>tinybar = Fin 0, hunit = Hbar\<rparr>"
    unfolding Hbar_from_def Let_def d
    by (subst new_Hbar_Fin [where x = 0]) simp_all
  show ?thesis using 1 2 tenth_not_int by simp
qed

lemma from_Fin:
  assumes "new_BigNumber a = Fin x"
  shows "Hbar_from a u =
     (if 2 ^ 63 - 1 < round_dp (x * 10 ^ unit_exponent u / 10 ^ 8) * 10 ^ 8
      then Inl (HbarRangeError
             \<lparr>tinybar = Fin (round_dp (x * 10 ^ unit_exponent u / 10 ^ 8) * 10 ^ 8), hunit = Hbar\<rparr>)
      else Inr \<lparr>tinybar = Fin (round_dp (x * 10 ^ unit_exponent u / 10 ^ 8) * 10 ^ 8), hunit = Hbar\<rparr>)"
proof -
  have d: "bn_dividedBy (bn_multipliedBy (new_BigNumber a) (toTinybarCount u)) (toTinybarCount Hbar)
             = Fin (round_dp (x * 10 ^ unit_exponent u / 10 ^ 8))"
    unfolding assms toTinybarCount_eq by simp
  show ?thesis
    unfolding Hbar_from_def Let_def d
    by (rule new_Hbar_Fin) simp
qed

lemma fromTinybar_Fin:
  assumes "new_BigNumber a = Fin x" and "\<not> (is_number a \<and> 2 ^ 53 \<le> x)"
  shows "Hbar_fromTinybar a =
     (if 2 ^ 63 - 1 < round_dp (x / 10 ^ 8) * 10 ^ 8
      then Inl (HbarRangeError \<lparr>tinybar = Fin (round_dp (x / 10 ^ 8) * 10 ^ 8), hunit = Hbar\<rparr>)
      else Inr \<lparr>tinybar = Fin (round_dp (x / 10 ^ 8) * 10 ^ 8), hunit = Hbar\<rparr>)"
proof -
  have ng: "\<not> (is_number a \<and> number_ge (new_BigNumber a) (2 ^ 53))"
    using assms by simp
  have d: "bn_dividedBy (new_BigNumber a) (toTinybarCount Hbar) = Fin (round_dp (x / 10 ^ 8))"
    unfolding assms(1) by simp
  have "Hbar_fromTinybar a =
      new_Hbar (JsBigNumber (bn_dividedBy (new_BigNumber a) (toTinybarCount Hbar)))"
    unfolding Hbar_fromTinybar_def Let_def using ng by (rule if_not_P)
  then show ?thesis
    unfolding d by (simp only: new_Hbar_Fin [of "JsBigNumber (Fin (round_dp (x / 10 ^ 8)))"
          "round_dp (x / 10 ^ 8)", OF new_BigNumber.simps(2)])
qed

text \<open>
  Claim C5, amended. No construction path tests that the value it stores is a whole
  number of tinybar. On a finite amount \<open>x\<close>, and with the value stored within
  \<open>- (2 ^ 63)\<close> and \<open>2 ^ 63 - 1\<close>: the constructor stores \<open>x * 10 ^ 8\<close> exactly, whole
  or not; \<^verbatim>\<open>Hbar.from\<close> stores \<open>r (x * f / 10 ^ 8) * 10 ^ 8\<close>, \<open>f\<close> the factor of its unit,
  and \<^verbatim>\<open>fromTinybar\<close>, on an input its guard lets through, \<open>r (x / 10 ^ 8) * 10 ^ 8\<close>,
  where \<open>r\<close> is the rounding of the division of bignumber.js, half up at 20 decimal
  places. When \<open>x * f\<close>, or \<open>x\<close> for \<^verbatim>\<open>fromTinybar\<close>, is an integer \<open>n\<close> within these
  bounds, what is stored is exactly \<open>n\<close>.
\<close>
theorem construction_stores_product:
  "(new_BigNumber a = Fin x \<and> - (2 ^ 63) \<le> x * 10 ^ 8 \<and> x * 10 ^ 8 \<le> 2 ^ 63 - 1
      \<longrightarrow> new_Hbar a = Inr \<lparr>tinybar = Fin (x * 10 ^ 8), hunit = Hbar\<rparr>)
   \<and> (new_BigNumber a = Fin x
        \<and> - (2 ^ 63) \<le> round_dp (x * 10 ^ unit_exponent u / 10 ^ 8) * 10 ^ 8
        \<and> round_dp (x * 10 ^ unit_exponent u / 10 ^ 8) * 10 ^ 8 \<le> 2 ^ 63 - 1
      \<longrightarrow> toTinybarCount u = Fin (10 ^ unit_exponent u)
        \<and> Hbar_from a u =
            Inr \<lparr>tinybar = Fin (round_dp (x * 10 ^ unit_exponent u / 10 ^ 8) * 10 ^ 8), hunit = Hbar\<rparr>)
   \<and> (new_BigNumber a = Fin x \<and> \<not> (is_number a \<and> 2 ^ 53 \<le> x)
        \<and> - (2 ^ 63) \<le> round_dp (x / 10 ^ 8) * 10 ^ 8 \<and> round_dp (x / 10 ^ 8) * 10 ^ 8 \<le> 2 ^ 63 - 1
      \<longrightarrow> Hbar_fromTinybar a = Inr \<lparr>tinybar = Fin (round_dp (x / 10 ^ 8) * 10 ^ 8), hunit = Hbar\<rparr>)
   \<and> (bn_multipliedBy (new_BigNumber a) (toTinybarCount u) = Fin (of_int n)
        \<and> - (2 ^ 63) \<le> n \<and> n \<le> 2 ^ 63 - 1
      \<longrightarrow> Hbar_from a u = Inr \<lparr>tinybar = Fin (of_int n), hunit = Hbar\<rparr>)
   \<and> (new_BigNumber a = Fin (of_int n) \<and> \<not> (is_number a \<and> 2 ^ 53 \<le> n)
        \<and> - (2 ^ 63) \<le> n \<and> n \<le> 2 ^ 63 - 1
      \<longrightarrow> Hbar_fromTinybar a = Inr \<lparr>tinybar = Fin (of_int n), hunit = Hbar\<rparr>)"
proof (intro conjI impI)
  assume "new_BigNumber a = Fin x \<and> - (2 ^ 63) \<le> x * 10 ^ 8 \<and> x * 10 ^ 8 \<le> 2 ^ 63 - 1"
  then show "new_Hbar a = Inr \<lparr>tinybar = Fin (x * 10 ^ 8), hunit = Hbar\<rparr>"
    using new_Hbar_Fin [of a x] by simp
next
  show "toTinybarCount u = Fin (10 ^ unit_exponent u)"
    by (rule toTinybarCount_eq)
next
  assume "new_BigNumber a = Fin x
        \<and> - (2 ^ 63) \<le> round_dp (x * 10 ^ unit_exponent u / 10 ^ 8) * 10 ^ 8
        \<and> round_dp (x * 10 ^ unit_exponent u / 10 ^ 8) * 10 ^ 8 \<le> 2 ^ 63 - 1"
  then show "Hbar_from a u =
      Inr \<lparr>tinybar = Fin (round_dp (x * 10 ^ unit_exponent u / 10 ^ 8) * 10 ^ 8), hunit = Hbar\<rparr>"
    using from_Fin [of a x u] by simp
next
  assume "new_BigNumber a = Fin x \<and> \<not> (is_number a \<and> 2 ^ 53 \<le> x)
        \<and> - (2 ^ 63) \<le> round_dp (x / 10 ^ 8) * 10 ^ 8 \<and> round_dp (x / 10 ^ 8) * 10 ^ 8 \<le> 2 ^ 63 - 1"
  then show "Hbar_fromTinybar a = Inr \<lparr>tinybar = Fin (round_dp (x / 10 ^ 8) * 10 ^ 8), hunit = Hbar\<rparr>"
    using fromTinybar_Fin [of a x] by simp
next
  assume "bn_multipliedBy (new_BigNumber a) (toTinybarCount u) = Fin (of_int n)
        \<and> - (2 ^ 63) \<le> n \<and> n \<le> 2 ^ 63 - 1"
  then show "Hbar_from a u = Inr \<lparr>tinybar = Fin (of_int n), hunit = Hbar\<rparr>"
    using from_exact [of a u n] by simp
next
  assume "new_BigNumber a = Fin (of_int n) \<and> \<not> (is_number a \<and> 2 ^ 53 \<le> n)
        \<and> - (2 ^ 63) \<le> n \<and> n \<le> 2 ^ 63 - 1"
  then show "Hbar_fromTinybar a = Inr \<lparr>tinybar = Fin (of_int n), hunit = Hbar\<rparr>"
    using fromTinybar_int [of a n] by simp
qed

lemma round_dp_tiny: "round_dp (1 / 10 ^ 21) = 0"
proof -
  have "\<lfloor>(3::rat) / 5\<rfloor> = 0" by (rule floor_unique) simp_all
  then show ?thesis
    by (simp add: round_dp_def round_half_up_def DECIMAL_PLACES_def)
qed

text \<open>
  C5 at \<^verbatim>\<open>new Hbar("0.000000001")\<close>, \<^verbatim>\<open>Hbar.from("0.0000000000001", HbarUnit.Tinybar)\<close>,
  \<^verbatim>\<open>Hbar.fromTinybar("0.0000000000001")\<close>, \<^verbatim>\<open>Hbar.from("1.5", HbarUnit.Microbar)\<close> and
  \<^verbatim>\<open>Hbar.fromTinybar(150)\<close>.
\<close>
theorem construction_stores_product_witness:
  "new_Hbar (JsString (Fin (1 / 10 ^ 9))) = Inr \<lparr>tinybar = Fin (1 / 10), hunit = Hbar\<rparr>
   \<and> Hbar_from (JsString (Fin (1 / 10 ^ 13))) Tinybar = Inr \<lparr>tinybar = Fin 0, hunit = Hbar\<rparr>
   \<and> Hbar_fromTinybar (JsString (Fin (1 / 10 ^ 13))) = Inr \<lparr>tinybar = Fin 0, hunit = Hbar\<rparr>
   \<and> Hbar_from (JsString (Fin (3 / 2))) Microbar = Inr \<lparr>tinybar = Fin 150, hunit = Hbar\<rparr>
   \<and> Hbar_fromTinybar (JsNumber (Fin 150)) = Inr \<lparr>tinybar = Fin 150, hunit = Hbar\<rparr>"
proof -
  have 1: "new_Hbar (JsString (Fin (1 / 10 ^ 9))) = Inr \<lparr>tinybar = Fin (1 / 10), hunit = Hbar\<rparr>"
    using construction_stores_product [of "JsString (Fin (1 / 10 ^ 9))" "1 / 10 ^ 9" Tinybar 0]
    by simp
  have 2: "Hbar_from (JsString (Fin (1 / 10 ^ 13))) Tinybar = Inr \<lparr>tinybar = Fin 0, hunit = Hbar\<rparr>"
    using construction_stores_product [of "JsString (Fin (1 / 10 ^ 13))" "1 / 10 ^ 13" Tinybar 0]
      round_dp_tiny
    by simp
  have 3: "Hbar_fromTinybar (JsString (Fin (1 / 10 ^ 13))) = Inr \<lparr>tinybar = Fin 0, hunit = Hbar\<rparr>"
    using construction_stores_product [of "JsString (Fin (1 / 10 ^ 13))" "1 / 10 ^ 13" Tinybar 0]
      round_dp_tiny
    by simp
  have 4: "Hbar_from (JsString (Fin (3 / 2))) Microbar = Inr \<lparr>tinybar = Fin 150, hunit = Hbar\<rparr>"
    using construction_stores_product [of "JsString (Fin (3 / 2))" "3 / 2" Microbar 150]
    by simp
  have 5: "Hbar_fromTinybar (JsNumber (Fin 150)) = Inr \<lparr>tinybar = Fin 150, hunit = Hbar\<rparr>"
    using construction_stores_product [of "JsNumber (Fin 150)" 150 Microbar 150]
    by simp
  show ?thesis using 1 2 3 4 5 by simp
qed

section \<open>Splitting and decimal numerals\<close>

lemma find_sub_absent: "c \<notin> set s \<Longrightarrow> find_sub (c # sep) s = None"
  by (induction s) (auto simp: prefix_def)

lemma find_sub_first:
  "c \<notin> set a \<Longrightarrow> find_sub (c # sep) (a @ (c # sep) @ b) = Some (a, b)"
  by (induction a) (auto simp: prefix_def)

lemma js_split_absent: "c \<notin> set s \<Longrightarrow> js_split s (c # sep) = [s]"
  by (subst js_split.simps) (simp add: find_sub_absent)

lemma js_split_first:
  "c \<notin> set a \<Longrightarrow> js_split (a @ (c # sep) @ b) (c # sep) = a # js_split b (c # sep)"
proof -
  assume "c \<notin> set a"
  then have "find_sub (c # sep) (a @ (c # sep) @ b) = Some (a, b)"
    by (rule find_sub_first)
  then show ?thesis
    by (subst js_split.simps) (simp del: append.simps append_assoc)
qed

lemma js_includes_char: "js_includes s [c] = (c \<in> set s)"
proof (induction s)
  case Nil
  then show ?case by (simp add: js_includes_def)
next
  case (Cons x xs)
  then show ?case by (auto simp: js_includes_def prefix_def)
qed

lemma digit_char_cases:
  "d < 10 \<Longrightarrow> is_digit (digit_char d) \<and> digit_val (digit_char d) = int d"
proof -
  assume "d < 10"
  then have "d \<in> {0, 1, 2, 3, 4, 5, 6, 7, 8, 9}" by auto
  then show ?thesis
    by (auto simp: is_digit_def digit_char_def digit_val_def)
qed

lemma digits_all: "\<forall>c \<in> set (digits n). is_digit c"
proof (induction n rule: digits.induct)
  case (1 n)
  show ?case
  proof (cases "n < 10")
    case True
    then show ?thesis by (subst digits.simps) (simp add: digit_char_cases)
  next
    case False
    then have "\<forall>c \<in> set (digits (n div 10)). is_digit c" using 1 by simp
    moreover have "is_digit (digit_char (n mod 10))" by (simp add: digit_char_cases)
    ultimately show ?thesis using False by (subst digits.simps) auto
  qed
qed

lemma digits_nonempty: "digits n \<noteq> []"
  by (subst digits.simps) simp

lemma foldl_dec: "foldl (\<lambda>a c. 10 * a + digit_val c) x b = x * 10 ^ length b + dec b"
proof (induction b rule: rev_induct)
  case Nil
  then show ?case by (simp add: dec_def)
next
  case (snoc c b)
  have "dec (b @ [c]) = 10 * dec b + digit_val c"
    by (simp add: dec_def)
  with snoc show ?case by (simp add: algebra_simps)
qed

lemma dec_append: "dec (a @ b) = dec a * 10 ^ length b + dec b"
proof -
  have "dec (a @ b) = foldl (\<lambda>a c. 10 * a + digit_val c) (dec a) b"
    by (simp add: dec_def)
  then show ?thesis by (simp only: foldl_dec)
qed

lemma dec_digits: "dec (digits n) = int n"
proof (induction n rule: digits.induct)
  case (1 n)
  show ?case
  proof (cases "n < 10")
    case True
    then show ?thesis by (subst digits.simps) (simp add: dec_def digit_char_cases)
  next
    case False
    then have "dec (digits (n div 10)) = int (n div 10)" using 1 by simp
    moreover have "dec [digit_char (n mod 10)] = int (n mod 10)"
      by (simp add: dec_def digit_char_cases)
    moreover have "int (n div 10) * 10 + int (n mod 10) = int n"
      by presburger
    ultimately have "dec (digits (n div 10) @ [digit_char (n mod 10)]) = int n"
      by (simp only: dec_append) simp
    then show ?thesis using False by (subst digits.simps) simp
  qed
qed

lemma dec_nonneg: "\<forall>c \<in> set s. is_digit c \<Longrightarrow> 0 \<le> dec s"
proof (induction s rule: rev_induct)
  case Nil
  then show ?case by (simp add: dec_def)
next
  case (snoc c s)
  then show ?case by (simp add: dec_append) (simp add: dec_def digit_val_def)
qed

lemma dec_bound: "\<forall>c \<in> set s. is_digit c \<Longrightarrow> dec s < 10 ^ length s"
proof (induction s rule: rev_induct)
  case Nil
  then show ?case by (simp add: dec_def)
next
  case (snoc c s)
  then have "dec s < 10 ^ length s" by simp
  then have "dec s + 1 \<le> 10 ^ length s" by simp
  moreover have "dec [c] \<le> 9"
    using snoc.prems by (auto simp: dec_def digit_val_def is_digit_def)
  ultimately show ?case by (simp add: dec_append)
qed

lemma digit_not_whitespace: "is_digit c \<Longrightarrow> \<not> is_whitespace c"
  by (auto simp: is_digit_def is_whitespace_def)

lemma parseInt_digits:
  assumes "\<forall>c \<in> set s. is_digit c" and "s \<noteq> []"
  shows "parseInt s = Some (dec s)"
proof -
  obtain c cs where s: "s = c # cs" using assms(2) by (cases s) auto
  have c: "is_digit c" using assms(1) s by simp
  have 1: "dropWhile is_whitespace s = s"
    using c s by (simp add: digit_not_whitespace)
  have 2: "hd s \<noteq> CHR ''-'' \<and> hd s \<noteq> CHR ''+''"
    using c s by (auto simp: is_digit_def)
  have 3: "takeWhile is_digit s = s"
    using assms(1) by (simp add: takeWhile_eq_all_conv)
  have 4: "s \<noteq> [] \<and> hd s = CHR ''-'' \<longleftrightarrow> False" using 2 by simp
  have 5: "(if s \<noteq> [] \<and> (hd s = CHR ''-'' \<or> hd s = CHR ''+'') then tl s else s) = s"
    using 2 by simp
  show ?thesis
    unfolding parseInt_def Let_def 1 4 5 3 using assms(2) by (simp add: dec_def)
qed

lemma js_trunc_of_int: "js_trunc (of_int v) = v"
  by (simp add: js_trunc_def)

lemma Long_fromNumber_small:
  "- (2 ^ 63) < v \<Longrightarrow> v < 2 ^ 63 \<Longrightarrow> Long_fromNumber (JNum (of_int v)) = Long (word_of_int v) False"
proof -
  assume a: "- (2 ^ 63) < v" and b: "v < 2 ^ 63"
  have a': "\<not> (of_int v :: rat) \<le> - (2 ^ 63)"
  proof -
    have "(- (2 ^ 63) :: rat) = of_int (- (2 ^ 63))" by simp
    then have "((of_int v :: rat) \<le> - (2 ^ 63)) = (v \<le> - (2 ^ 63))" by (simp only: of_int_le_iff)
    with a show ?thesis by simp
  qed
  have c': "((2 :: rat) ^ 63 \<le> of_int v + 1) = (2 ^ 63 \<le> v + 1)"
  proof -
    have "((2 :: rat) ^ 63) = of_int (2 ^ 63)" by simp
    moreover have "(of_int v + 1 :: rat) = of_int (v + 1)" by simp
    ultimately show ?thesis by (simp only: of_int_le_iff)
  qed
  have n: "- (of_int v :: rat) = of_int (- v)" by simp
  show ?thesis
  proof (cases "2 ^ 63 \<le> v + 1")
    case True
    with b have "v = 2 ^ 63 - 1" by simp
    then show ?thesis using a' c' True by (simp only: Long_fromNumber.simps if_False if_True)
  next
    case False
    show ?thesis
    proof (cases "v < 0")
      case True
      then have "(of_int v :: rat) < 0" by simp
      then show ?thesis
        using a' c' False
        by (simp only: Long_fromNumber.simps if_False if_True n js_trunc_of_int)
          (simp add: Long_neg_def)
    next
      case neg: False
      then have "\<not> (of_int v :: rat) < 0" by simp
      then show ?thesis
        using a' c' False by (simp only: Long_fromNumber.simps if_False js_trunc_of_int)
    qed
  qed
qed

lemma pow10_le8: "k \<le> 8 \<Longrightarrow> (10::int) ^ k \<le> 10 ^ 8"
  by (rule power_increasing) simp_all

lemma parse_chunks_digits:
  "\<forall>c \<in> set s. is_digit c \<Longrightarrow>
   parse_chunks (Long r False) s = Long (r * word_of_int (10 ^ length s) + word_of_int (dec s)) False"
proof (induction "Long r False" s arbitrary: r rule: parse_chunks.induct)
  case (1 s)
  show ?case
  proof (cases "s = []")
    case True
    then show ?thesis by (subst parse_chunks.simps) (simp add: dec_def)
  next
    case False
    let ?chunk = "take 8 s"
    let ?rest = "drop 8 s"
    have dc: "\<forall>c \<in> set ?chunk. is_digit c" using "1.prems" by (auto dest: in_set_takeD)
    have dr: "\<forall>c \<in> set ?rest. is_digit c" using "1.prems" by (auto dest: in_set_dropD)
    have ne: "?chunk \<noteq> []" using False by simp
    have len: "length ?chunk \<le> 8" by simp
    have p: "parseInt ?chunk = Some (dec ?chunk)" using dc ne by (rule parseInt_digits)
    have b0: "0 \<le> dec ?chunk" using dc by (rule dec_nonneg)
    have "dec ?chunk < 10 ^ length ?chunk" using dc by (rule dec_bound)
    also have "\<dots> \<le> 10 ^ 8" using len by (rule pow10_le8)
    finally have b1: "dec ?chunk < 10 ^ 8" .
    have v: "Long_fromNumber (JNum (of_int (dec ?chunk))) = Long (word_of_int (dec ?chunk)) False"
    proof (rule Long_fromNumber_small)
      show "- (2 ^ 63) < dec ?chunk" using b0 by simp
      show "dec ?chunk < 2 ^ 63" using b1 by simp
    qed
    have ple: "(10::int) ^ length ?chunk \<le> 10 ^ 8" using len by (rule pow10_le8)
    have ppos: "(0::int) < 10 ^ length ?chunk" by simp
    have "Long_fromNumber (JNum (of_int (10 ^ length ?chunk)))
            = Long (word_of_int (10 ^ length ?chunk)) False"
    proof (rule Long_fromNumber_small)
      have "- (2 ^ 63) < (0::int)" by simp
      also note ppos
      finally show "- (2 ^ 63) < (10::int) ^ length ?chunk" .
      show "(10::int) ^ length ?chunk < 2 ^ 63" using ple by simp
    qed
    moreover have "(of_int (10 ^ length ?chunk) :: rat) = 10 ^ length ?chunk" by simp
    ultimately have pw: "Long_fromNumber (JNum (10 ^ length ?chunk))
            = Long (word_of_int (10 ^ length ?chunk)) False"
      by (simp only:)
    let ?r' = "r * word_of_int (10 ^ length ?chunk) + word_of_int (dec ?chunk)"
    have acc: "Long_add (Long_mul (Long r False) (Long_fromNumber (JNum (10 ^ length ?chunk))))
                 (Long_fromNumber (case parseInt ?chunk of None \<Rightarrow> JNaN
                                   | Some n \<Rightarrow> JNum (of_int n)))
               = Long ?r' False"
      by (simp only: p v pw option.case Long_add_def Long_mul_def Long.sel)
    have step: "parse_chunks (Long r False) s = parse_chunks (Long ?r' False) ?rest"
      by (subst parse_chunks.simps) (simp only: False if_False Let_def acc)
    have ih: "parse_chunks (Long ?r' False) ?rest
        = Long (?r' * word_of_int (10 ^ length ?rest) + word_of_int (dec ?rest)) False"
      using "1.hyps" [OF False refl refl refl acc] dr by blast
    have s: "s = ?chunk @ ?rest" by simp
    have l: "length s = length ?chunk + length ?rest" by simp
    have d: "dec s = dec ?chunk * 10 ^ length ?rest + dec ?rest"
      by (subst s) (simp only: dec_append)
    show ?thesis
      unfolding step ih d l by (simp add: power_add algebra_simps)
  qed
qed

lemma is_digit_not_special:
  "is_digit c \<Longrightarrow> c \<noteq> CHR ''N'' \<and> c \<noteq> CHR ''I'' \<and> c \<noteq> CHR ''+'' \<and> c \<noteq> CHR ''-''"
  by (auto simp: is_digit_def)

lemma Long_fromString_plain:
  assumes "c \<noteq> CHR ''N''" "c \<noteq> CHR ''I''" "c \<noteq> CHR ''+''" "c \<noteq> CHR ''-''"
    and "CHR ''-'' \<notin> set cs"
  shows "Long_fromString (c # cs) = Inr (parse_chunks (Long 0 False) (c # cs))"
  using assms by simp

lemma Long_fromString_minus:
  assumes "c \<noteq> CHR ''I''"
  shows "Long_fromString (CHR ''-'' # c # cs) =
           (case Long_fromString (c # cs) of Inl e \<Rightarrow> Inl e | Inr l \<Rightarrow> Inr (Long_neg l))"
  using assms by simp

lemma Long_fromString_digits:
  "Long_fromString (digits m) = Inr (Long (word_of_int (int m)) False)"
proof -
  obtain c cs where s: "digits m = c # cs" using digits_nonempty [of m] by (cases "digits m") auto
  have d: "\<forall>x \<in> set (c # cs). is_digit x" using digits_all [of m] s by simp
  have c: "is_digit c" using d by simp
  have 3: "CHR ''-'' \<notin> set cs" using d is_digit_not_special by auto
  have "Long_fromString (c # cs) = Inr (parse_chunks (Long 0 False) (c # cs))"
    using is_digit_not_special [OF c] 3 by (intro Long_fromString_plain) simp_all
  also have "parse_chunks (Long 0 False) (c # cs) = Long (word_of_int (dec (c # cs))) False"
    using parse_chunks_digits [OF d, of 0] by simp
  finally show ?thesis using dec_digits [of m] by (simp only: s)
qed

lemma Long_toString_chars: "c \<in> set (Long_toString l) \<Longrightarrow> c = CHR ''-'' \<or> is_digit c"
proof -
  assume "c \<in> set (Long_toString l)"
  then consider "c = CHR ''-''" | n where "c \<in> set (digits n)"
    unfolding Long_toString_def
    by (cases "Long_unsigned l"; cases "sint (Long_bits l) < 0") auto
  then show ?thesis
  proof cases
    case 1
    then show ?thesis by simp
  next
    case 2
    then show ?thesis using digits_all [of n] by blast
  qed
qed

lemma Long_toString_no_sep:
  "CHR ''@'' \<notin> set (Long_toString l) \<and> CHR ''.'' \<notin> set (Long_toString l)
   \<and> CHR ''?'' \<notin> set (Long_toString l) \<and> CHR ''/'' \<notin> set (Long_toString l)"
proof -
  have "\<not> (c = CHR ''-'' \<or> is_digit c)" if "c \<in> {CHR ''@'', CHR ''.'', CHR ''?'', CHR ''/''}" for c
    using that by (auto simp: is_digit_def)
  then show ?thesis using Long_toString_chars [of _ l] by blast
qed

text \<open>
  What \<^verbatim>\<open>Long.fromString\<close> reads from the numeral of a \<^verbatim>\<open>Long\<close>: the signed \<^verbatim>\<open>Long\<close> of
  the same bits.
\<close>

lemma Long_fromString_toString:
  "Long_fromString (Long_toString l) = Inr (Long (Long_bits l) False)"
proof -
  consider (u) "Long_unsigned l" | (p) "\<not> Long_unsigned l" "\<not> sint (Long_bits l) < 0"
    | (n) "\<not> Long_unsigned l" "sint (Long_bits l) < 0" by blast
  then show ?thesis
  proof cases
    case u
    then have "Long_toString l = digits (unat (Long_bits l))" by (simp add: Long_toString_def)
    then show ?thesis by (simp add: Long_fromString_digits)
  next
    case p
    then have "Long_toString l = digits (nat (sint (Long_bits l)))"
      by (simp add: Long_toString_def)
    then show ?thesis using p by (simp add: Long_fromString_digits)
  next
    case n
    let ?m = "nat (- sint (Long_bits l))"
    have t: "Long_toString l = CHR ''-'' # digits ?m" using n by (simp add: Long_toString_def)
    obtain c cs where s: "digits ?m = c # cs"
      using digits_nonempty [of ?m] by (cases "digits ?m") auto
    have "is_digit c" using digits_all [of ?m] s by simp
    then have "c \<noteq> CHR ''I''" using is_digit_not_special by simp
    then have "Long_fromString (CHR ''-'' # c # cs) =
           (case Long_fromString (c # cs) of Inl e \<Rightarrow> Inl e | Inr l \<Rightarrow> Inr (Long_neg l))"
      by (rule Long_fromString_minus)
    then have "Long_fromString (CHR ''-'' # digits ?m)
                 = Inr (Long_neg (Long (word_of_int (int ?m)) False))"
      by (simp only: flip: s) (simp only: Long_fromString_digits sum.case)
    moreover have "- (word_of_int (int ?m) :: int64) = Long_bits l" using n by simp
    ultimately show ?thesis by (simp add: t Long_neg_def)
  qed
qed

lemma sint_zero_iff: "sint l = 0 \<longleftrightarrow> l = 0" for l :: int64
proof
  assume z: "sint l = 0"
  have "l = word_of_int (sint l)" by simp
  also have "\<dots> = 0" by (simp only: z word_of_int_0)
  finally show "l = 0" .
next
  assume "l = 0"
  then show "sint l = 0" by simp
qed

lemma digits_zero_iff: "digits n = ''0'' \<longleftrightarrow> n = 0"
proof
  assume "digits n = ''0''"
  then have "dec (digits n) = dec ''0''" by simp
  then show "n = 0" by (simp add: dec_digits) (simp add: dec_def digit_val_def)
next
  assume "n = 0"
  then show "digits n = ''0''" by (subst digits.simps) (simp add: digit_char_def)
qed

lemma Long_toString_zero_iff: "Long_toString l = ''0'' \<longleftrightarrow> Long_bits l = 0"
proof (cases "Long_unsigned l")
  case True
  then show ?thesis by (simp add: Long_toString_def digits_zero_iff unat_eq_0)
next
  case False
  show ?thesis
  proof (cases "sint (Long_bits l) < 0")
    case True
    obtain c cs where "digits (nat (- sint (Long_bits l))) = c # cs"
      using digits_nonempty [of "nat (- sint (Long_bits l))"]
      by (cases "digits (nat (- sint (Long_bits l)))") auto
    moreover have "Long_bits l \<noteq> 0" using True by auto
    ultimately show ?thesis using True False by (simp add: Long_toString_def)
  next
    case nn: False
    have "nat (sint (Long_bits l)) = 0 \<longleftrightarrow> sint (Long_bits l) = 0" using nn by simp
    also have "\<dots> \<longleftrightarrow> Long_bits l = 0" by (rule sint_zero_iff)
    finally show ?thesis using nn False by (simp add: Long_toString_def digits_zero_iff)
  qed
qed

section \<open>The text form of a transaction identifier\<close>

lemma js_includes_absent: "c \<notin> set s \<Longrightarrow> \<not> js_includes s [c]"
  by (simp add: js_includes_char)

lemma js_replace_first: "c \<notin> set a \<Longrightarrow> js_replace (a @ c # b) [c] r = a @ r @ b"
  using find_sub_first [of c a "[]" b] by (simp add: js_replace_def)

lemma new_TransactionId_eq:
  "new_TransactionId a v s n =
     Inr \<lparr>accountId = a, validStart = v,
          scheduled = (case s of None \<Rightarrow> False | Some b \<Rightarrow> b),
          nonce = (case n of
                     None \<Rightarrow> None
                   | Some k \<Rightarrow> if nonce_is_zero k then None
                              else Some (case k of ANumber i \<Rightarrow> Long_fromNumber i | ALong l \<Rightarrow> l)),
          frozen = True\<rparr>"
  by (simp add: new_TransactionId_def setNonce_def Let_def split: option.splits)

lemma nonce_is_zero_Long: "nonce_is_zero (ALong l) \<longleftrightarrow> Long_bits l = 0"
  by (simp add: Long_toString_zero_iff)

lemma fromString_construct_ok:
  assumes "acc_fromString A = Inr a"
    and "\<forall>l. no = Some l \<longrightarrow> Long_bits l \<noteq> 0"
  shows "fromString_construct acc_fromString A (Long_toString (Long (seconds t) False))
           (Long_toString (Long (nanos t) False)) sch (map_option Long_toString no)
         = Inr \<lparr>accountId = Some a, validStart = Some t,
                scheduled = (case sch of None \<Rightarrow> False | Some b \<Rightarrow> b),
                nonce = map_option as_signed no, frozen = True\<rparr>"
proof (cases no)
  case None
  then show ?thesis
    by (simp add: fromString_construct_def assms(1) Long_fromString_toString
        new_TransactionId_eq new_Timestamp_def)
next
  case (Some n)
  with assms(2) have "Long_bits n \<noteq> 0" by simp
  then have "\<not> nonce_is_zero (ALong (Long (Long_bits n) False))"
    by (simp only: nonce_is_zero_Long Long.sel not_False_eq_True)
  with Some show ?thesis
    by (simp add: fromString_construct_def assms(1) Long_fromString_toString
        new_TransactionId_eq new_Timestamp_def as_signed_def del: nonce_is_zero.simps)
qed

lemma fromString_toString_record:
  assumes acc: "acc_fromString (acc_toString a) = Inr a"
    and at: "CHR ''@'' \<notin> set (acc_toString a)"
    and nz: "\<forall>l. no = Some l \<longrightarrow> Long_bits l \<noteq> 0"
  shows "\<exists>s. toString acc_toString
               \<lparr>accountId = Some a, validStart = Some t, scheduled = b, nonce = no, frozen = True\<rparr>
             = Inr s
           \<and> fromString acc_fromString s
             = Inr \<lparr>accountId = Some a, validStart = Some t, scheduled = b,
                    nonce = map_option as_signed no, frozen = True\<rparr>"
proof -
  let ?I = "\<lparr>accountId = Some a, validStart = Some t, scheduled = b, nonce = no, frozen = True\<rparr>"
  let ?J = "\<lparr>accountId = Some a, validStart = Some t, scheduled = b,
              nonce = map_option as_signed no, frozen = True\<rparr>"
  let ?A = "acc_toString a"
  let ?S = "Long_toString (Long (seconds t) False)"
  let ?N = "Long_toString (Long (nanos t) False)"
  let ?X = "if b then ''?scheduled'' else ''''"
  let ?Y = "case no of Some n \<Rightarrow> ''/'' @ Long_toString n | None \<Rightarrow> ''''"
  let ?R' = "?N @ ?X @ ?Y"
  let ?R = "?S @ ''.'' @ ?R'"
  let ?s = "?A @ ''@'' @ ?R"
  have ts: "toString acc_toString ?I = Inr ?s"
    by (simp add: toString_def)
  have Y_at: "CHR ''@'' \<notin> set ?Y" and Y_dot: "CHR ''.'' \<notin> set ?Y" and Y_q: "CHR ''?'' \<notin> set ?Y"
    using Long_toString_no_sep by (auto split: option.splits)
  have X_at: "CHR ''@'' \<notin> set ?X" and X_dot: "CHR ''.'' \<notin> set ?X" and X_sl: "CHR ''/'' \<notin> set ?X"
    by auto
  have R_at: "CHR ''@'' \<notin> set ?R"
    using Long_toString_no_sep [of "Long (seconds t) False"] Long_toString_no_sep [of "Long (nanos t) False"] Y_at X_at
    by simp
  have R'_dot: "CHR ''.'' \<notin> set ?R'"
    using Long_toString_no_sep [of "Long (nanos t) False"] Y_dot X_dot by simp
  have S_dot: "CHR ''.'' \<notin> set ?S" using Long_toString_no_sep by blast
  have N_q: "CHR ''?'' \<notin> set ?N" and N_sl: "CHR ''/'' \<notin> set ?N"
    using Long_toString_no_sep by blast+
  have sp1: "js_split ?s ''@'' = [?A, ?R]"
    using js_split_first [OF at, of "[]" ?R] js_split_absent [OF R_at, of "[]"] by simp
  have sp2: "js_split ?R ''.'' = [?S, ?R']"
    using js_split_first [OF S_dot, of "[]" ?R'] js_split_absent [OF R'_dot, of "[]"] by simp
  have main: "fromString acc_fromString ?s = Inr ?J"
  proof (cases b)
    case True
    have inc: "js_includes ?R' ''?''" using True by (simp add: js_includes_char)
    have sp3: "js_split ?R' ''?scheduled'' = [?N, ?Y]"
      using js_split_first [OF N_q, of "''scheduled''" ?Y]
        js_split_absent [OF Y_q, of "''scheduled''"] True by simp
    have Y: "(if js_includes ?Y ''/'' then Some (js_replace ?Y ''/'' '''') else None)
               = map_option Long_toString no"
    proof (cases no)
      case None
      then show ?thesis by (simp add: js_includes_char)
    next
      case (Some n)
      then show ?thesis
        using js_replace_first [of "CHR ''/''" "[]" "Long_toString n" "[]"]
        by (simp add: js_includes_char)
    qed
    have "fromString acc_fromString ?s =
            fromString_construct acc_fromString ?A ?S ?N (Some True) (map_option Long_toString no)"
      unfolding fromString_def sp1 list.case sp2 using inc sp3 Y by (simp only: if_True list.case)
    then show ?thesis
      using fromString_construct_ok [of acc_fromString "acc_toString a" a no t "Some True", OF acc nz] True by simp
  next
    case False
    have ninc: "\<not> js_includes ?R' ''?''"
      using False N_q Y_q by (simp add: js_includes_char)
    show ?thesis
    proof (cases no)
      case None
      have R': "?R' = ?N" using False None by simp
      have nsl: "\<not> js_includes ?R' ''/''" unfolding R' using N_sl by (simp add: js_includes_char)
      have "fromString acc_fromString ?s =
              fromString_construct acc_fromString ?A ?S ?R' None None"
        unfolding fromString_def sp1 list.case sp2 using ninc nsl by (simp only: if_False)
      then show ?thesis
        unfolding R' using fromString_construct_ok [of acc_fromString "acc_toString a" a no t None, OF acc nz] False None by simp
    next
      case (Some n)
      have R': "?R' = ?N @ ''/'' @ Long_toString n" using False Some by simp
      have sl: "js_includes ?R' ''/''" unfolding R' by (simp add: js_includes_char)
      have n_sl: "CHR ''/'' \<notin> set (Long_toString n)" using Long_toString_no_sep by blast
      have sp3: "js_split ?R' ''/'' = [?N, Long_toString n]"
        unfolding R'
        using js_split_first [OF N_sl, of "[]" "Long_toString n"] js_split_absent [OF n_sl, of "[]"]
        by simp
      have "fromString acc_fromString ?s =
              fromString_construct acc_fromString ?A ?S ?N (Some False) (Some (Long_toString n))"
        unfolding fromString_def sp1 list.case sp2 using ninc sl sp3
        by (simp only: if_False if_True list.case)
      then show ?thesis
        using fromString_construct_ok [of acc_fromString "acc_toString a" a no t "Some False", OF acc nz] False Some by simp
    qed
  qed
  show ?thesis using ts main by blast
qed

text \<open>
  Against claim C2 as stated: an identifier made with the unsigned nonce
  \<open>2 ^ 63 + 5\<close> prints it as \<^verbatim>\<open>/9223372036854775813\<close>, and \<^verbatim>\<open>fromString\<close>, which reads
  every number of the text with the signed \<^verbatim>\<open>Long.fromString\<close>, returns the signed
  \<^verbatim>\<open>Long\<close> of the same bits, whose numeral is \<^verbatim>\<open>-9223372036854775803\<close>.
\<close>
theorem fromString_reads_nonce_signed:
  "new_TransactionId (Some ''0.0.1001'') (Some \<lparr>seconds = 5, nanos = 4\<rparr>) (Some False)
       (Some (ALong (Long 9223372036854775813 True)))
     = Inr \<lparr>accountId = Some ''0.0.1001'', validStart = Some \<lparr>seconds = 5, nanos = 4\<rparr>,
            scheduled = False, nonce = Some (Long 9223372036854775813 True), frozen = True\<rparr>
   \<and> toString (\<lambda>x. x)
       \<lparr>accountId = Some ''0.0.1001'', validStart = Some \<lparr>seconds = 5, nanos = 4\<rparr>,
        scheduled = False, nonce = Some (Long 9223372036854775813 True), frozen = True\<rparr>
     = Inr ''0.0.1001@5.4/9223372036854775813''
   \<and> fromString Inr ''0.0.1001@5.4/9223372036854775813''
     = Inr \<lparr>accountId = Some ''0.0.1001'', validStart = Some \<lparr>seconds = 5, nanos = 4\<rparr>,
            scheduled = False, nonce = Some (Long 9223372036854775813 False), frozen = True\<rparr>
   \<and> Long_toString (Long 9223372036854775813 False) = ''-9223372036854775803''
   \<and> fromString Inr ''0.0.1001@5.4/9223372036854775813''
     \<noteq> Inr \<lparr>accountId = Some ''0.0.1001'', validStart = Some \<lparr>seconds = 5, nanos = 4\<rparr>,
            scheduled = False, nonce = Some (Long 9223372036854775813 True), frozen = True\<rparr>"
proof -
  let ?I = "\<lparr>accountId = Some ''0.0.1001'', validStart = Some \<lparr>seconds = 5, nanos = 4\<rparr>,
              scheduled = False, nonce = Some (Long 9223372036854775813 True), frozen = True\<rparr>"
  have z: "\<not> nonce_is_zero (ALong (Long 9223372036854775813 True))"
    by (simp only: nonce_is_zero_Long Long.sel) simp
  have c: "new_TransactionId (Some ''0.0.1001'') (Some \<lparr>seconds = 5, nanos = 4\<rparr>) (Some False)
             (Some (ALong (Long 9223372036854775813 True))) = Inr ?I"
    using z by (simp add: new_TransactionId_eq del: nonce_is_zero.simps)
  have t: "toString (\<lambda>x. x) ?I = Inr ''0.0.1001@5.4/9223372036854775813''"
    by (simp add: toString_def Long_toString_def digits.simps digit_char_def)
  have n: "Long_toString (Long 9223372036854775813 False) = ''-9223372036854775803''"
    by (simp add: Long_toString_def digits.simps digit_char_def)
  have "\<exists>s. toString (\<lambda>x. x) ?I = Inr s
           \<and> fromString Inr s
             = Inr \<lparr>accountId = Some ''0.0.1001'', validStart = Some \<lparr>seconds = 5, nanos = 4\<rparr>,
                    scheduled = False,
                    nonce = map_option as_signed (Some (Long 9223372036854775813 True)),
                    frozen = True\<rparr>"
    by (rule fromString_toString_record) simp_all
  then have f: "fromString Inr ''0.0.1001@5.4/9223372036854775813''
     = Inr \<lparr>accountId = Some ''0.0.1001'', validStart = Some \<lparr>seconds = 5, nanos = 4\<rparr>,
            scheduled = False, nonce = Some (Long 9223372036854775813 False), frozen = True\<rparr>"
    unfolding t by (simp add: as_signed_def)
  show ?thesis
    unfolding f using c t n by simp
qed

text \<open>
  Claim C2, amended. For every identifier \<open>I\<close> that the constructor makes from an owner and
  a valid start, whatever the scheduled flag, whose nonce is absent or a \<^verbatim>\<open>Long\<close> other
  than zero, \<^verbatim>\<open>toString\<close> returns a string and \<^verbatim>\<open>fromString\<close> maps it back to \<open>I\<close> with the
  nonce read as the signed \<^verbatim>\<open>Long\<close> of the same bits: to \<open>I\<close> itself, all fields equal,
  when the nonce is absent or signed. What is asked of the account reference is its own
  contract: its text parses back to it and holds no \<^verbatim>\<open>@\<close>.
\<close>
theorem fromString_toString_roundtrip:
  assumes "acc_fromString (acc_toString a) = Inr a"
    and "CHR ''@'' \<notin> set (acc_toString a)"
    and "new_TransactionId (Some a) (Some t) sch n = Inr I"
    and "\<forall>l. nonce I = Some l \<longrightarrow> Long_bits l \<noteq> 0"
  shows "\<exists>s. toString acc_toString I = Inr s
           \<and> fromString acc_fromString s = Inr (I\<lparr>nonce := map_option as_signed (nonce I)\<rparr>)
           \<and> ((\<forall>l. nonce I = Some l \<longrightarrow> \<not> Long_unsigned l)
                \<longrightarrow> fromString acc_fromString s = Inr I)"
proof -
  obtain b no where I: "I = \<lparr>accountId = Some a, validStart = Some t, scheduled = b,
              nonce = no, frozen = True\<rparr>"
    using assms(3) unfolding new_TransactionId_eq by auto
  have nz: "\<forall>l. no = Some l \<longrightarrow> Long_bits l \<noteq> 0" using assms(4) I by simp
  obtain s where s: "toString acc_toString I = Inr s"
    and f: "fromString acc_fromString s
              = Inr \<lparr>accountId = Some a, validStart = Some t, scheduled = b,
                     nonce = map_option as_signed no, frozen = True\<rparr>"
    using fromString_toString_record [of acc_fromString acc_toString a no t b, OF assms(1,2) nz]
    unfolding I by blast
  have g: "fromString acc_fromString s = Inr (I\<lparr>nonce := map_option as_signed (nonce I)\<rparr>)"
    using f I by simp
  have "map_option as_signed no = no" if "\<forall>l. nonce I = Some l \<longrightarrow> \<not> Long_unsigned l"
  proof (cases no)
    case None
    then show ?thesis by simp
  next
    case (Some l)
    with that I have "\<not> Long_unsigned l" by simp
    then have "as_signed l = l" by (cases l) (simp add: as_signed_def)
    with Some show ?thesis by simp
  qed
  then have "(\<forall>l. nonce I = Some l \<longrightarrow> \<not> Long_unsigned l)
               \<longrightarrow> fromString acc_fromString s = Inr I"
    using f I by simp
  with s g show ?thesis by blast
qed

text \<open>C2 at \<^verbatim>\<open>0.0.1001@1614385200.123456789?scheduled/117\<close>.\<close>
theorem fromString_toString_roundtrip_witness:
  "toString (\<lambda>x. x)
     \<lparr>accountId = Some ''0.0.1001'', validStart = Some \<lparr>seconds = 1614385200, nanos = 123456789\<rparr>,
      scheduled = True, nonce = Some (Long 117 False), frozen = True\<rparr>
     = Inr ''0.0.1001@1614385200.123456789?scheduled/117''
   \<and> fromString Inr ''0.0.1001@1614385200.123456789?scheduled/117''
     = Inr \<lparr>accountId = Some ''0.0.1001'',
            validStart = Some \<lparr>seconds = 1614385200, nanos = 123456789\<rparr>,
            scheduled = True, nonce = Some (Long 117 False), frozen = True\<rparr>"
proof -
  let ?I = "\<lparr>accountId = Some ''0.0.1001'',
              validStart = Some \<lparr>seconds = 1614385200, nanos = 123456789\<rparr>,
              scheduled = True, nonce = Some (Long 117 False), frozen = True\<rparr>"
  have c: "new_TransactionId (Some ''0.0.1001'') (Some \<lparr>seconds = 1614385200, nanos = 123456789\<rparr>)
             (Some True) (Some (ANumber (JNum 117))) = Inr ?I"
    by (simp add: new_TransactionId_eq js_trunc_def)
  have t: "toString (\<lambda>x. x) ?I = Inr ''0.0.1001@1614385200.123456789?scheduled/117''"
    by (simp add: toString_def Long_toString_def digits.simps digit_char_def)
  show ?thesis
    using fromString_toString_roundtrip
      [of Inr "\<lambda>x. x" "''0.0.1001''" "\<lparr>seconds = 1614385200, nanos = 123456789\<rparr>"
        "Some True" "Some (ANumber (JNum 117))" ?I] c t by (simp add: as_signed_def)
qed

section \<open>The protobuf form of a transaction identifier\<close>

lemma toInt_kept:
  assumes "if u then uint w < 2 ^ 32 else - (2 ^ 31) \<le> sint w \<and> sint w < 2 ^ 31"
  shows "toInt (Long w u) = (if u then uint w else sint w)"
proof (cases u)
  case True
  with assms have "uint w < 2 ^ 32" by simp
  then have "take_bit 32 (uint w) = uint w"
    by (simp add: take_bit_int_eq_self)
  then show ?thesis
    using True by (simp add: toInt_def unsigned_ucast_eq)
next
  case False
  with assms have r: "- (2 ^ 31) \<le> sint w" "sint w < 2 ^ 31" by simp_all
  have "toInt (Long w False) = signed_take_bit 31 (uint w)"
    by (simp add: toInt_def signed_ucast_eq)
  also have "\<dots> = signed_take_bit 31 (sint w)"
    by (simp add: signed_take_bit_eq_iff_take_bit_eq sint_uint take_bit_signed_take_bit)
  also have "\<dots> = sint w"
    using r by (rule signed_take_bit_int_eq_self)
  finally show ?thesis using False by simp
qed

lemma toInt_nonzero:
  assumes "if u then uint w < 2 ^ 32 else - (2 ^ 31) \<le> sint w \<and> sint w < 2 ^ 31"
    and "w \<noteq> 0"
  shows "toInt (Long w u) \<noteq> 0"
proof (cases u)
  case True
  from assms(2) have "uint w \<noteq> 0" by (simp add: uint_0_iff)
  then show ?thesis unfolding toInt_kept [OF assms(1)] using True by simp
next
  case False
  from assms(2) have "sint w \<noteq> 0" by (simp add: sint_zero_iff)
  then show ?thesis unfolding toInt_kept [OF assms(1)] using False by simp
qed

lemma Long_fromNumber_toInt:
  assumes "if u then uint w < 2 ^ 32 else - (2 ^ 31) \<le> sint w \<and> sint w < 2 ^ 31"
  shows "Long_fromNumber (JNum (of_int (toInt (Long w u)))) = Long w False"
proof -
  define k where "k = toInt (Long w u)"
  have k: "k = (if u then uint w else sint w)"
    unfolding k_def by (rule toInt_kept [OF assms])
  have b: "- (2 ^ 63) < k" "k < 2 ^ 63" and v: "word_of_int k = w"
  proof -
    show "- (2 ^ 63) < k"
    proof (cases u)
      case True
      have "- (2 ^ 63) < (0::int)" by simp
      also have "0 \<le> uint w" by simp
      finally show ?thesis unfolding k using True by simp
    next
      case False
      with assms have "- (2 ^ 31) \<le> sint w" by simp
      then show ?thesis unfolding k using False by simp
    qed
    show "k < 2 ^ 63"
    proof (cases u)
      case True
      with assms have "uint w < 2 ^ 32" by simp
      then show ?thesis unfolding k using True by simp
    next
      case False
      with assms have "sint w < 2 ^ 31" by simp
      then show ?thesis unfolding k using False by simp
    qed
    show "word_of_int k = w"
      unfolding k by (cases u) simp_all
  qed
  have "Long_fromNumber (JNum (of_int k)) = Long (word_of_int k) False"
    using b by (rule Long_fromNumber_small)
  then show ?thesis unfolding v unfolding k_def .
qed

lemma fromProtobuf_toProtobuf_record:
  assumes acc: "acc_fromProtobuf (acc_toProtobuf a) = Inr a"
    and ts: "ts_fromProtobuf (ts_toProtobuf t) = Inr t"
    and rg: "\<forall>l. no = Some l \<longrightarrow> Long_bits l \<noteq> 0
                 \<and> (if Long_unsigned l then uint (Long_bits l) < 2 ^ 32
                     else - (2 ^ 31) \<le> sint (Long_bits l) \<and> sint (Long_bits l) < 2 ^ 31)"
  shows "fromProtobuf acc_fromProtobuf ts_fromProtobuf
           (toProtobuf acc_toProtobuf ts_toProtobuf
              \<lparr>accountId = Some a, validStart = Some t, scheduled = b, nonce = no, frozen = True\<rparr>)
         = Inr \<lparr>accountId = Some a, validStart = Some t, scheduled = b,
                nonce = map_option as_signed no, frozen = True\<rparr>"
proof (cases no)
  case None
  then show ?thesis
    by (simp add: fromProtobuf_def toProtobuf_def acc ts new_TransactionId_eq)
next
  case (Some l)
  obtain w u where l: "l = Long w u" by (cases l)
  from Some rg l have nz: "w \<noteq> 0"
    and r: "if u then uint w < 2 ^ 32 else - (2 ^ 31) \<le> sint w \<and> sint w < 2 ^ 31"
    by (simp_all cong: if_cong)
  note z = toInt_nonzero [OF r nz] and f = Long_fromNumber_toInt [OF r]
  show ?thesis
    unfolding Some l
    by (simp add: fromProtobuf_def toProtobuf_def acc ts new_TransactionId_eq z f as_signed_def
        del: Long_fromNumber.simps)
qed

text \<open>
  Claim C4, amended. For every identifier \<open>I\<close> that the constructor makes from an owner and
  a valid start, whatever the scheduled flag, whose nonce is absent or is a \<^verbatim>\<open>Long\<close> other
  than zero that \<^verbatim>\<open>toInt()\<close> keeps whole (a signed one within the signed 32-bit range, an
  unsigned one below \<open>2 ^ 32\<close>), \<^verbatim>\<open>_fromProtobuf\<close> maps \<^verbatim>\<open>_toProtobuf\<close> of \<open>I\<close> back to \<open>I\<close>
  with the nonce as the signed \<^verbatim>\<open>Long\<close> of the same bits: to \<open>I\<close> itself, all fields
  equal, when the nonce is absent or signed. The protobuf conversions of the account
  reference and of the timestamp are taken to be inverse to each other on the owner and
  the valid start.
\<close>
theorem fromProtobuf_toProtobuf_roundtrip:
  assumes "acc_fromProtobuf (acc_toProtobuf a) = Inr a"
    and "ts_fromProtobuf (ts_toProtobuf t) = Inr t"
    and "new_TransactionId (Some a) (Some t) sch n = Inr I"
    and "\<forall>l. nonce I = Some l \<longrightarrow> Long_bits l \<noteq> 0
             \<and> (if Long_unsigned l then uint (Long_bits l) < 2 ^ 32
                 else - (2 ^ 31) \<le> sint (Long_bits l) \<and> sint (Long_bits l) < 2 ^ 31)"
  shows "fromProtobuf acc_fromProtobuf ts_fromProtobuf (toProtobuf acc_toProtobuf ts_toProtobuf I)
           = Inr (I\<lparr>nonce := map_option as_signed (nonce I)\<rparr>)
       \<and> ((\<forall>l. nonce I = Some l \<longrightarrow> \<not> Long_unsigned l)
            \<longrightarrow> fromProtobuf acc_fromProtobuf ts_fromProtobuf
                  (toProtobuf acc_toProtobuf ts_toProtobuf I) = Inr I)"
proof -
  obtain b no where I: "I = \<lparr>accountId = Some a, validStart = Some t, scheduled = b,
              nonce = no, frozen = True\<rparr>"
    using assms(3) unfolding new_TransactionId_eq by auto
  have "\<forall>l. no = Some l \<longrightarrow> Long_bits l \<noteq> 0
             \<and> (if Long_unsigned l then uint (Long_bits l) < 2 ^ 32
                 else - (2 ^ 31) \<le> sint (Long_bits l) \<and> sint (Long_bits l) < 2 ^ 31)"
    using assms(4) unfolding I by (simp cong: if_cong)
  then have f: "fromProtobuf acc_fromProtobuf ts_fromProtobuf
                  (toProtobuf acc_toProtobuf ts_toProtobuf I)
                = Inr \<lparr>accountId = Some a, validStart = Some t, scheduled = b,
                       nonce = map_option as_signed no, frozen = True\<rparr>"
    unfolding I using assms(1,2) by (intro fromProtobuf_toProtobuf_record)
  have "map_option as_signed no = no" if "\<forall>l. nonce I = Some l \<longrightarrow> \<not> Long_unsigned l"
  proof (cases no)
    case None
    then show ?thesis by simp
  next
    case (Some l)
    with that I have "\<not> Long_unsigned l" by simp
    then have "as_signed l = l" by (cases l) (simp add: as_signed_def)
    with Some show ?thesis by simp
  qed
  with f I show ?thesis by simp
qed

text \<open>
  C4 at a scheduled identifier with nonce 117, and at one whose nonce is the unsigned
  \<^verbatim>\<open>Long\<close> 3000000000.
\<close>
theorem fromProtobuf_toProtobuf_roundtrip_witness:
  "fromProtobuf Inr Inr
     (toProtobuf (\<lambda>x. x) (\<lambda>x. x)
        \<lparr>accountId = Some ''0.0.1001'', validStart = Some \<lparr>seconds = 1614385200, nanos = 123456789\<rparr>,
         scheduled = True, nonce = Some (Long 117 False), frozen = True\<rparr>)
   = Inr \<lparr>accountId = Some ''0.0.1001'',
          validStart = Some \<lparr>seconds = 1614385200, nanos = 123456789\<rparr>,
          scheduled = True, nonce = Some (Long 117 False), frozen = True\<rparr>
   \<and> fromProtobuf Inr Inr
     (toProtobuf (\<lambda>x. x) (\<lambda>x. x)
        \<lparr>accountId = Some ''0.0.1001'', validStart = Some \<lparr>seconds = 1614385200, nanos = 123456789\<rparr>,
         scheduled = False, nonce = Some (Long 3000000000 True), frozen = True\<rparr>)
   = Inr \<lparr>accountId = Some ''0.0.1001'',
          validStart = Some \<lparr>seconds = 1614385200, nanos = 123456789\<rparr>,
          scheduled = False, nonce = Some (Long 3000000000 False), frozen = True\<rparr>"
proof -
  let ?I = "\<lparr>accountId = Some ''0.0.1001'',
              validStart = Some \<lparr>seconds = 1614385200, nanos = 123456789\<rparr>,
              scheduled = True, nonce = Some (Long 117 False), frozen = True\<rparr>"
  let ?J = "\<lparr>accountId = Some ''0.0.1001'',
              validStart = Some \<lparr>seconds = 1614385200, nanos = 123456789\<rparr>,
              scheduled = False, nonce = Some (Long 3000000000 True), frozen = True\<rparr>"
  have c: "new_TransactionId (Some ''0.0.1001'') (Some \<lparr>seconds = 1614385200, nanos = 123456789\<rparr>)
             (Some True) (Some (ANumber (JNum 117))) = Inr ?I"
    by (simp add: new_TransactionId_eq js_trunc_def)
  have z: "\<not> nonce_is_zero (ALong (Long 3000000000 True))"
    by (simp only: nonce_is_zero_Long Long.sel) simp
  have d: "new_TransactionId (Some ''0.0.1001'') (Some \<lparr>seconds = 1614385200, nanos = 123456789\<rparr>)
             (Some False) (Some (ALong (Long 3000000000 True))) = Inr ?J"
    using z by (simp add: new_TransactionId_eq del: nonce_is_zero.simps)
  have 1: "fromProtobuf Inr Inr (toProtobuf (\<lambda>x. x) (\<lambda>x. x) ?I) = Inr ?I"
    using fromProtobuf_toProtobuf_roundtrip
      [of Inr "\<lambda>x. x" "''0.0.1001''" Inr "\<lambda>x. x" "\<lparr>seconds = 1614385200, nanos = 123456789\<rparr>"
        "Some True" "Some (ANumber (JNum 117))" ?I] c
    by (simp add: as_signed_def)
  have 2: "fromProtobuf Inr Inr (toProtobuf (\<lambda>x. x) (\<lambda>x. x) ?J)
             = Inr (?J\<lparr>nonce := Some (Long 3000000000 False)\<rparr>)"
    using fromProtobuf_toProtobuf_roundtrip
      [of Inr "\<lambda>x. x" "''0.0.1001''" Inr "\<lambda>x. x" "\<lparr>seconds = 1614385200, nanos = 123456789\<rparr>"
        "Some False" "Some (ALong (Long 3000000000 True))" ?J] d
    by (simp add: as_signed_def)
  show ?thesis using 1 2 by simp
qed

text \<open>
  Against claim C4 as stated: the nonce \<open>2 ^ 32 + 5\<close> is written as \<^verbatim>\<open>toInt()\<close>, its low
  32 bits, and comes back as 5.
\<close>
theorem fromProtobuf_truncates_nonce:
  "new_TransactionId (Some ''0.0.1001'') (Some \<lparr>seconds = 5, nanos = 4\<rparr>) (Some False)
     (Some (ALong (Long 4294967301 False)))
   = Inr \<lparr>accountId = Some ''0.0.1001'', validStart = Some \<lparr>seconds = 5, nanos = 4\<rparr>,
          scheduled = False, nonce = Some (Long 4294967301 False), frozen = True\<rparr>
   \<and> fromProtobuf Inr Inr
       (toProtobuf (\<lambda>x. x) (\<lambda>x. x)
          \<lparr>accountId = Some ''0.0.1001'', validStart = Some \<lparr>seconds = 5, nanos = 4\<rparr>,
           scheduled = False, nonce = Some (Long 4294967301 False), frozen = True\<rparr>)
   = Inr \<lparr>accountId = Some ''0.0.1001'', validStart = Some \<lparr>seconds = 5, nanos = 4\<rparr>,
          scheduled = False, nonce = Some (Long 5 False), frozen = True\<rparr>
   \<and> fromProtobuf Inr Inr
       (toProtobuf (\<lambda>x. x) (\<lambda>x. x)
          \<lparr>accountId = Some ''0.0.1001'', validStart = Some \<lparr>seconds = 5, nanos = 4\<rparr>,
           scheduled = False, nonce = Some (Long 4294967301 False), frozen = True\<rparr>)
   \<noteq> Inr \<lparr>accountId = Some ''0.0.1001'', validStart = Some \<lparr>seconds = 5, nanos = 4\<rparr>,
          scheduled = False, nonce = Some (Long 4294967301 False), frozen = True\<rparr>"
proof -
  have z: "\<not> nonce_is_zero (ALong (Long 4294967301 False))"
    by (simp only: nonce_is_zero_Long Long.sel) simp
  have i: "toInt (Long 4294967301 False) = 5"
    by (simp add: toInt_def)
  have n: "Long_fromNumber (JNum 5) = Long 5 False"
    by (simp add: js_trunc_def)
  show ?thesis
    using z by (simp add: fromProtobuf_def toProtobuf_def new_TransactionId_eq i n
        del: nonce_is_zero.simps(1) Long_fromNumber.simps)
qed

section \<open>Nonce and ordering\<close>

text \<open>
  Claim C6. A nonce of zero given to the constructor is left out, and the text has no
  \<^verbatim>\<open>/0\<close>. \<^verbatim>\<open>setNonce(0)\<close> does not do the same: on an identifier the constructor made,
  here with nonce 7, the assignment throws, the object being frozen; on one not frozen
  it stores the zero, and the text ends in \<^verbatim>\<open>/0\<close>.
\<close>
theorem setNonce_zero_not_normalized:
  "new_TransactionId (Some ''0.0.1001'') (Some \<lparr>seconds = 5, nanos = 4\<rparr>) None (Some (ANumber (JNum 0)))
     = Inr \<lparr>accountId = Some ''0.0.1001'', validStart = Some \<lparr>seconds = 5, nanos = 4\<rparr>,
            scheduled = False, nonce = None, frozen = True\<rparr>
   \<and> toString (\<lambda>x. x)
       \<lparr>accountId = Some ''0.0.1001'', validStart = Some \<lparr>seconds = 5, nanos = 4\<rparr>,
        scheduled = False, nonce = None, frozen = True\<rparr>
     = Inr ''0.0.1001@5.4''
   \<and> new_TransactionId (Some ''0.0.1001'') (Some \<lparr>seconds = 5, nanos = 4\<rparr>) None (Some (ANumber (JNum 7)))
     = Inr \<lparr>accountId = Some ''0.0.1001'', validStart = Some \<lparr>seconds = 5, nanos = 4\<rparr>,
            scheduled = False, nonce = Some (Long 7 False), frozen = True\<rparr>
   \<and> setNonce
       \<lparr>accountId = Some ''0.0.1001'', validStart = Some \<lparr>seconds = 5, nanos = 4\<rparr>,
        scheduled = False, nonce = Some (Long 7 False), frozen = True\<rparr> (ANumber (JNum 0))
     = Inl TypeError
   \<and> setNonce
       \<lparr>accountId = Some ''0.0.1001'', validStart = Some \<lparr>seconds = 5, nanos = 4\<rparr>,
        scheduled = False, nonce = Some (Long 7 False), frozen = False\<rparr> (ANumber (JNum 0))
     = Inr \<lparr>accountId = Some ''0.0.1001'', validStart = Some \<lparr>seconds = 5, nanos = 4\<rparr>,
            scheduled = False, nonce = Some (Long 0 False), frozen = False\<rparr>
   \<and> toString (\<lambda>x. x)
       \<lparr>accountId = Some ''0.0.1001'', validStart = Some \<lparr>seconds = 5, nanos = 4\<rparr>,
        scheduled = False, nonce = Some (Long 0 False), frozen = False\<rparr>
     = Inr ''0.0.1001@5.4/0''"
  by (simp add: new_TransactionId_eq setNonce_def toString_def Long_toString_def
      js_trunc_def digits.simps digit_char_def)

lemma Long_compare_refl: "Long_compare a a = 0"
  by (simp add: Long_compare_def)

lemma Timestamp_compare_refl: "Timestamp_compare t t = 0"
  by (simp add: Timestamp_compare_def Long_compare_refl)

text \<open>
  Claim C7. \<^verbatim>\<open>compare\<close> never reads \<^verbatim>\<open>scheduled\<close> or \<^verbatim>\<open>nonce\<close>; on identifiers with owner
  and valid start set it returns the account comparator's result when that is not zero,
  and the timestamp comparator's otherwise; on equal owners and equal valid starts it
  returns 0, each comparator returning 0 on equal arguments; and with the timestamp
  comparator of the spec the second key is the seconds, then the nanoseconds.
\<close>
theorem compare_ignores_scheduled_nonce:
  "compare acc_compare ts_compare (x\<lparr>scheduled := s1, nonce := n1\<rparr>) (y\<lparr>scheduled := s2, nonce := n2\<rparr>)
     = compare acc_compare ts_compare x y
   \<and> (accountId x = Some a \<and> accountId y = Some b \<and> validStart x = Some t \<and> validStart y = Some u
        \<longrightarrow> compare acc_compare ts_compare x y
            = Inr (if acc_compare a b \<noteq> 0 then acc_compare a b else ts_compare t u))
   \<and> (accountId x = Some a \<and> accountId y = Some a \<and> validStart x = Some t \<and> validStart y = Some t
        \<and> acc_compare a a = 0 \<and> ts_compare t t = 0
        \<longrightarrow> compare acc_compare ts_compare x y = Inr 0)
   \<and> (accountId x = Some a \<and> accountId y = Some b \<and> validStart x = Some t \<and> validStart y = Some u
        \<longrightarrow> compare acc_compare Timestamp_compare x y
            = Inr (if acc_compare a b \<noteq> 0 then acc_compare a b
                   else if seconds t \<noteq> seconds u then Long_compare (seconds t) (seconds u)
                   else Long_compare (nanos t) (nanos u)))"
  by (auto simp: compare_def Let_def Timestamp_compare_def Long_compare_def split: option.splits)

text \<open>
  C7 at two identifiers that differ in \<^verbatim>\<open>scheduled\<close> and \<^verbatim>\<open>nonce\<close> only, and at two
  that differ in the nanoseconds as well.
\<close>
theorem compare_ignores_scheduled_nonce_witness:
  "compare (\<lambda>a b. if a = b then 0 else if a < b then - 1 else 1) Timestamp_compare
     \<lparr>accountId = Some (1001::nat), validStart = Some \<lparr>seconds = 5, nanos = 4\<rparr>,
      scheduled = True, nonce = Some (Long 7 False), frozen = True\<rparr>
     \<lparr>accountId = Some 1001, validStart = Some \<lparr>seconds = 5, nanos = 4\<rparr>,
      scheduled = False, nonce = None, frozen = True\<rparr>
   = Inr 0
   \<and> compare (\<lambda>a b. if a = b then 0 else if a < b then - 1 else 1) Timestamp_compare
     \<lparr>accountId = Some (1001::nat), validStart = Some \<lparr>seconds = 5, nanos = 4\<rparr>,
      scheduled = True, nonce = Some (Long 7 False), frozen = True\<rparr>
     \<lparr>accountId = Some 1001, validStart = Some \<lparr>seconds = 5, nanos = 9\<rparr>,
      scheduled = False, nonce = None, frozen = True\<rparr>
   = Inr (- 1)"
  using compare_ignores_scheduled_nonce
    [where acc_compare = "\<lambda>a b. if a = b then 0 else if a < b then - 1 else 1"
      and ts_compare = Timestamp_compare
      and x = "\<lparr>accountId = Some (1001::nat), validStart = Some \<lparr>seconds = 5, nanos = 4\<rparr>,
        scheduled = True, nonce = Some (Long 7 False), frozen = True\<rparr>"
      and y = "\<lparr>accountId = Some 1001, validStart = Some \<lparr>seconds = 5, nanos = 4\<rparr>,
        scheduled = False, nonce = None, frozen = True\<rparr>"
      and a = 1001 and b = 1001
      and t = "\<lparr>seconds = 5, nanos = 4\<rparr>" and u = "\<lparr>seconds = 5, nanos = 4\<rparr>"]
    compare_ignores_scheduled_nonce
    [where acc_compare = "\<lambda>a b. if a = b then 0 else if a < b then - 1 else 1"
      and ts_compare = Timestamp_compare
      and x = "\<lparr>accountId = Some (1001::nat), validStart = Some \<lparr>seconds = 5, nanos = 4\<rparr>,
        scheduled = True, nonce = Some (Long 7 False), frozen = True\<rparr>"
      and y = "\<lparr>accountId = Some 1001, validStart = Some \<lparr>seconds = 5, nanos = 9\<rparr>,
        scheduled = False, nonce = None, frozen = True\<rparr>"
      and a = 1001 and b = 1001
      and t = "\<lparr>seconds = 5, nanos = 4\<rparr>" and u = "\<lparr>seconds = 5, nanos = 9\<rparr>"]
  by (simp add: Timestamp_compare_def Long_compare_def)

section \<open>The exchange-rate mapper\<close>

text \<open>
  Claim C10. The result of \<^verbatim>\<open>exchangeRateSetToSdk\<close> does not depend on the set's next
  rate; whenever it returns, \<^verbatim>\<open>nextRate\<close> equals \<^verbatim>\<open>currentRate\<close>, the projection of the
  set's current rate; and it returns whenever that projection does.
\<close>
theorem exchangeRateSetToSdk_next_is_current:
  "exchangeRateSetToSdk (s\<lparr>getNextrate := n\<rparr>) = exchangeRateSetToSdk s
   \<and> (\<forall>r. exchangeRateSetToSdk s = Inr r
          \<longrightarrow> nextRate r = currentRate r
              \<and> exchangeRateToSdk (getCurrentrate s) = Inr (currentRate r))
   \<and> (\<forall>c. exchangeRateToSdk (getCurrentrate s) = Inr c
          \<longrightarrow> exchangeRateSetToSdk s = Inr \<lparr>currentRate = c, nextRate = c\<rparr>)"
  by (auto simp: exchangeRateSetToSdk_def split: sum.splits)

text \<open>C10 at a set whose next rate differs from its current rate.\<close>
theorem exchangeRateSetToSdk_next_is_current_witness:
  "exchangeRateSetToSdk
     \<lparr>getCurrentrate = Some \<lparr>getHbarequiv = 1, getCentequiv = 12,
                               getExpirationtime = Some \<lparr>getSeconds = 1614385200\<rparr>\<rparr>,
      getNextrate = Some \<lparr>getHbarequiv = 1, getCentequiv = 15,
                            getExpirationtime = Some \<lparr>getSeconds = 1614388800\<rparr>\<rparr>\<rparr>
   = Inr \<lparr>currentRate = \<lparr>hbarEquiv = 1, centEquiv = 12, expirationTime = Date 1614385200\<rparr>,
          nextRate = \<lparr>hbarEquiv = 1, centEquiv = 12, expirationTime = Date 1614385200\<rparr>\<rparr>"
proof -
  let ?c = "\<lparr>getHbarequiv = 1, getCentequiv = 12,
             getExpirationtime = Some \<lparr>getSeconds = 1614385200\<rparr>\<rparr>"
  let ?n = "\<lparr>getHbarequiv = 1, getCentequiv = 15,
             getExpirationtime = Some \<lparr>getSeconds = 1614388800\<rparr>\<rparr>"
  let ?s = "\<lparr>getCurrentrate = Some ?c, getNextrate = Some ?n\<rparr>"
  have c: "exchangeRateToSdk (getCurrentrate ?s)
             = Inr \<lparr>hbarEquiv = 1, centEquiv = 12, expirationTime = Date 1614385200\<rparr>"
    by (simp add: exchangeRateToSdk_def new_Date_def)
  from exchangeRateSetToSdk_next_is_current [where s = ?s and n = None]
  have "\<forall>c. exchangeRateToSdk (getCurrentrate ?s) = Inr c
          \<longrightarrow> exchangeRateSetToSdk ?s = Inr \<lparr>currentRate = c, nextRate = c\<rparr>"
    by blast
  with c show ?thesis by blast
qed

end
